theory Spec2Isabelle
  imports Main
begin


section \<open>Faults\<close>

text \<open>
  The exceptions that the modelled code raises, or lets through from Python and from the
  object-relational layer: \<open>InvalidStateException\<close> (handling_exceptions), the store's
  \<open>IntegrityError\<close>, Python's \<open>TypeError\<close> (a call whose arguments do not fit the
  signature), \<open>AttributeError\<close>, \<open>KeyError\<close> (a missing dictionary key),
  \<open>ValueError\<close> (saving a row that refers to an unsaved object) and the query layer's
  \<open>ObjectDoesNotExist\<close> and \<open>MultipleObjectsReturned\<close>.
\<close>

datatype error =
    InvalidStateException
  | IntegrityError
  | TypeError
  | KeyError string
  | ValueError
  | AttributeError
  | ObjectDoesNotExist
  | MultipleObjectsReturned

section \<open>The run record store\<close>

text \<open>
  The five run states. The Status table is declared outside the source files at hand; the
  letters \<open>e\<close>, \<open>q\<close> and \<open>p\<close> are the ones \<open>handle_message.py\<close> compares with (together
  with their verbose names in its comments), and \<open>c\<close> and \<open>s\<close> follow the same
  first-letter convention.
\<close>

datatype status = Queued | Processing | Completed | Skipped | Error

fun status_value :: "status \<Rightarrow> string" where
  "status_value Queued = ''q''"
| "status_value Processing = ''p''"
| "status_value Completed = ''c''"
| "status_value Skipped = ''s''"
| "status_value Error = ''e''"

definition get_queued :: status where "get_queued = Queued"
definition get_processing :: status where "get_processing = Processing"
definition get_completed :: status where "get_completed = Completed"
definition get_skipped :: status where "get_skipped = Skipped"
definition get_error :: status where "get_error = Error"

type_synonym datetime = nat

text \<open>An RB number as it arrives in a message: an integer, or text such as \<open>12a\<close>.\<close>

datatype rb_value = RbInt int | RbText string

record message =
  msg_run_number :: int
  msg_instrument :: string
  msg_rb_number :: rb_value
  msg_run_version :: "int option"
  msg_data :: string
  msg_message :: "string option"
  msg_reduction_data :: "string list option"
  msg_reduction_log :: "string option"
  msg_admin_log :: "string option"

record instrument =
  inst_pk :: "nat option"
  inst_name :: string
  inst_is_active :: bool
  inst_is_paused :: bool

record experiment_row =
  exp_pk :: "nat option"
  exp_reference_number :: rb_value

record reduction_run =
  run_pk :: "nat option"
  run_run_number :: int
  run_run_version :: int
  run_status :: status
  run_instrument :: "nat option"
  run_experiment :: "nat option"
  run_script :: string
  run_started :: "datetime option"
  run_finished :: "datetime option"
  run_message :: "string option"
  run_reduction_log :: "string option"
  run_admin_log :: "string option"

record data_location =
  dl_pk :: "nat option"
  dl_file_path :: string
  dl_reduction_run_id :: "nat option"

record reduction_location =
  rl_pk :: "nat option"
  rl_file_path :: string
  rl_reduction_run :: "nat option"

record database =
  instruments :: "instrument list"
  experiments :: "experiment_row list"
  reduction_runs :: "reduction_run list"
  data_locations :: "data_location list"
  reduction_locations :: "reduction_location list"

datatype row =
    InstrumentRow instrument
  | ExperimentRow experiment_row
  | RunRow reduction_run
  | DataLocationRow data_location
  | ReductionLocationRow reduction_location

text \<open>
  \<open>obj.save()\<close> of the object-relational layer, on one table (a list of rows in insertion
  order): an object without a primary key is inserted under a fresh key; an object with a
  key replaces the row of that key, or is inserted under it when there is none. The key
  of the saved row is returned (the layer writes it back into the object).
\<close>

definition fresh_pk :: "('a \<Rightarrow> nat option) \<Rightarrow> 'a list \<Rightarrow> nat" where
  "fresh_pk pk rows =
     Suc (foldr (\<lambda>r m. case pk r of None \<Rightarrow> m | Some i \<Rightarrow> max i m) rows 0)"

definition save_row ::
  "('a \<Rightarrow> nat option) \<Rightarrow> (nat \<Rightarrow> 'a \<Rightarrow> 'a) \<Rightarrow> 'a \<Rightarrow> 'a list \<Rightarrow> nat \<times> 'a list" where
  "save_row pk set_pk obj rows =
     (case pk obj of
        None \<Rightarrow> (let i = fresh_pk pk rows in (i, rows @ [set_pk i obj]))
      | Some i \<Rightarrow>
          if list_ex (\<lambda>r. pk r = Some i) rows
          then (i, map (\<lambda>r. if pk r = Some i then obj else r) rows)
          else (i, rows @ [obj]))"

fun write_row :: "database \<Rightarrow> row \<Rightarrow> (error + nat) \<times> database" where
  "write_row db (InstrumentRow x) =
     (let (i, rows) = save_row inst_pk (\<lambda>i r. r\<lparr>inst_pk := Some i\<rparr>) x (instruments db)
      in (Inr i, db\<lparr>instruments := rows\<rparr>))"
| "write_row db (ExperimentRow x) =
     (let (i, rows) = save_row exp_pk (\<lambda>i r. r\<lparr>exp_pk := Some i\<rparr>) x (experiments db)
      in (Inr i, db\<lparr>experiments := rows\<rparr>))"
| "write_row db (RunRow x) =
     (let (i, rows) = save_row run_pk (\<lambda>i r. r\<lparr>run_pk := Some i\<rparr>) x (reduction_runs db)
      in (Inr i, db\<lparr>reduction_runs := rows\<rparr>))"
| "write_row db (DataLocationRow x) =
     (let (i, rows) = save_row dl_pk (\<lambda>i r. r\<lparr>dl_pk := Some i\<rparr>) x (data_locations db)
      in (Inr i, db\<lparr>data_locations := rows\<rparr>))"
| "write_row db (ReductionLocationRow x) =
     (if rl_reduction_run x = None then (Inl ValueError, db)
      else let (i, rows) =
             save_row rl_pk (\<lambda>i r. r\<lparr>rl_pk := Some i\<rparr>) x (reduction_locations db)
           in (Inr i, db\<lparr>reduction_locations := rows\<rparr>))"

text \<open>
  Which writes the relational store refuses is decided by its schema, which is not part of
  the source files at hand: it is the parameter \<open>integrity\<close> (true when the store, in
  its present state, accepts the row). A refused write raises \<open>IntegrityError\<close> and
  leaves the store as it was. A row that refers to an object never saved is refused by
  the object-relational layer itself, with \<open>ValueError\<close>.
\<close>

type_synonym constraints = "database \<Rightarrow> row \<Rightarrow> bool"

definition save :: "constraints \<Rightarrow> database \<Rightarrow> row \<Rightarrow> (error + nat) \<times> database" where
  "save integrity db obj =
     (if integrity db obj then write_row db obj else (Inl IntegrityError, db))"

text \<open>
  \<open>HandleMessage.safe_save\<close>: the save runs inside \<open>transaction.atomic()\<close>; an
  \<open>IntegrityError\<close> is logged and raised again, every other outcome passes through.
\<close>

definition safe_save :: "constraints \<Rightarrow> database \<Rightarrow> row \<Rightarrow> (error + nat) \<times> database" where
  "safe_save integrity db obj =
     (case save integrity db obj of
        (Inl IntegrityError, db') \<Rightarrow> (Inl IntegrityError, db')
      | (res, db') \<Rightarrow> (res, db'))"

section \<open>The lifecycle orchestrator (handle\_message.py)\<close>

definition common_reduction_run_update ::
  "datetime \<Rightarrow> reduction_run \<Rightarrow> status \<Rightarrow> message \<Rightarrow> reduction_run" where
  "common_reduction_run_update utcnow reduction_run st message =
     reduction_run\<lparr>run_status := st,
                   run_finished := Some utcnow,
                   run_message := msg_message message,
                   run_reduction_log := msg_reduction_log message,
                   run_admin_log := msg_admin_log message\<rparr>"

text \<open>
  Each handler takes the clock reading it stamps (\<open>datetime.utcnow()\<close>), the store and the
  in-memory run object, and returns the fault raised or the run object as mutated,
  together with the store as the handler leaves it.
\<close>

definition save_run ::
  "constraints \<Rightarrow> database \<Rightarrow> reduction_run \<Rightarrow> (error + reduction_run) \<times> database" where
  "save_run integrity db reduction_run =
     (case safe_save integrity db (RunRow reduction_run) of
        (Inl e, db') \<Rightarrow> (Inl e, db')
      | (Inr i, db') \<Rightarrow> (Inr (reduction_run\<lparr>run_pk := Some i\<rparr>), db'))"

definition reduction_started ::
  "constraints \<Rightarrow> datetime \<Rightarrow> database \<Rightarrow> reduction_run \<Rightarrow> message
     \<Rightarrow> (error + reduction_run) \<times> database" where
  "reduction_started integrity utcnow db reduction_run message =
     (if status_value (run_status reduction_run) \<notin> set [''e'', ''q'']
      then (Inl InvalidStateException, db)
      else save_run integrity db
             (reduction_run\<lparr>run_status := get_processing, run_started := Some utcnow\<rparr>))"

fun save_reduction_locations ::
  "constraints \<Rightarrow> database \<Rightarrow> reduction_run \<Rightarrow> string list \<Rightarrow> error option \<times> database" where
  "save_reduction_locations integrity db reduction_run [] = (None, db)"
| "save_reduction_locations integrity db reduction_run (location # rest) =
     (case safe_save integrity db
             (ReductionLocationRow \<lparr>rl_pk = None, rl_file_path = location,
                                    rl_reduction_run = run_pk reduction_run\<rparr>) of
        (Inl e, db') \<Rightarrow> (Some e, db')
      | (Inr i, db') \<Rightarrow> save_reduction_locations integrity db' reduction_run rest)"

definition reduction_complete ::
  "constraints \<Rightarrow> datetime \<Rightarrow> database \<Rightarrow> reduction_run \<Rightarrow> message
     \<Rightarrow> (error + reduction_run) \<times> database" where
  "reduction_complete integrity utcnow db reduction_run message =
     (if \<not> status_value (run_status reduction_run) = ''p''
      then (Inl InvalidStateException, db)
      else
        let run1 = common_reduction_run_update utcnow reduction_run get_completed message in
        case (case msg_reduction_data message of
                None \<Rightarrow> (None, db)
              | Some locations \<Rightarrow> save_reduction_locations integrity db run1 locations) of
          (Some e, db') \<Rightarrow> (Inl e, db')
        | (None, db') \<Rightarrow> save_run integrity db' run1)"

definition reduction_skipped ::
  "constraints \<Rightarrow> datetime \<Rightarrow> database \<Rightarrow> reduction_run \<Rightarrow> message
     \<Rightarrow> (error + reduction_run) \<times> database" where
  "reduction_skipped integrity utcnow db reduction_run message =
     save_run integrity db (common_reduction_run_update utcnow reduction_run get_skipped message)"

definition reduction_error ::
  "constraints \<Rightarrow> datetime \<Rightarrow> database \<Rightarrow> reduction_run \<Rightarrow> message
     \<Rightarrow> (error + reduction_run) \<times> database" where
  "reduction_error integrity utcnow db reduction_run message =
     save_run integrity db (common_reduction_run_update utcnow reduction_run get_error message)"

text \<open>
  \<open>do_reduction\<close>: \<open>run_process\<close> is \<open>ReductionProcessManager(message).run()\<close>, the
  external execution collaborator; it answers whether the process finished and with which
  message. \<open>t_start\<close> and \<open>t_finish\<close> are the two clock readings.
\<close>

definition do_reduction ::
  "constraints \<Rightarrow> (message \<Rightarrow> bool \<times> message) \<Rightarrow> datetime \<Rightarrow> datetime \<Rightarrow> database
     \<Rightarrow> reduction_run \<Rightarrow> message \<Rightarrow> (error + reduction_run) \<times> database" where
  "do_reduction integrity run_process t_start t_finish db reduction_run message =
     (case reduction_started integrity t_start db reduction_run message of
        (Inl e, db1) \<Rightarrow> (Inl e, db1)
      | (Inr run1, db1) \<Rightarrow>
          (case run_process message of
             (process_finished, message') \<Rightarrow>
               if process_finished
               then (if msg_message message' \<noteq> None
                     then reduction_error integrity t_finish db1 run1 message'
                     else reduction_complete integrity t_finish db1 run1 message')
               else (Inr run1, db1)))"

text \<open>
  \<open>send_message_onwards\<close>: \<open>validate\<close> is \<open>message.validate("/queue/DataReady")\<close>
  (true when it raises no \<open>RuntimeError\<close>). \<open>t1\<close> and \<open>t2\<close> are the clock readings
  taken in order; the skipped paths take one.
\<close>

definition send_message_onwards ::
  "constraints \<Rightarrow> (message \<Rightarrow> bool) \<Rightarrow> (message \<Rightarrow> bool \<times> message) \<Rightarrow> datetime \<Rightarrow> datetime
     \<Rightarrow> database \<Rightarrow> reduction_run \<Rightarrow> message \<Rightarrow> instrument
     \<Rightarrow> (error + reduction_run) \<times> database" where
  "send_message_onwards integrity validate run_process t1 t2 db reduction_run message instrument =
     (if \<not> validate message then reduction_skipped integrity t1 db reduction_run message
      else if inst_is_paused instrument
      then reduction_skipped integrity t1 db reduction_run message
      else do_reduction integrity run_process t1 t2 db reduction_run message)"

subsection \<open>Look-ups of the database access layer\<close>

definition lower :: "char \<Rightarrow> char" where
  "lower c = (let n = (of_char c :: nat) in if 65 \<le> n \<and> n \<le> 90 then char_of (n + 32) else c)"

text \<open>
  Modelled from the spec: \<open>db_access.get_instrument(name, create=True)\<close>, which is
  missing from the source files. An instrument is identified by its name, unique and
  case-insensitive, and is created lazily on the first event that refers to an unknown
  name. The new row is neither active nor paused.
\<close>

definition get_instrument :: "database \<Rightarrow> string \<Rightarrow> instrument \<times> database" where
  "get_instrument db name =
     (case find (\<lambda>x. map lower (inst_name x) = map lower name) (instruments db) of
        Some x \<Rightarrow> (x, db)
      | None \<Rightarrow>
          (let x = \<lparr>inst_pk = None, inst_name = name, inst_is_active = False,
                    inst_is_paused = False\<rparr>;
               (i, rows) = save_row inst_pk (\<lambda>i r. r\<lparr>inst_pk := Some i\<rparr>) x (instruments db)
           in (x\<lparr>inst_pk := Some i\<rparr>, db\<lparr>instruments := rows\<rparr>)))"

text \<open>
  Modelled from the spec: \<open>db_access.get_experiment(rb_number, create=True)\<close>, which is
  missing from the source files. An experiment is identified by its reference number; it
  is looked up, or inserted when there is none.
\<close>

definition get_experiment :: "database \<Rightarrow> rb_value \<Rightarrow> experiment_row \<times> database" where
  "get_experiment db rb_number =
     (case find (\<lambda>x. exp_reference_number x = rb_number) (experiments db) of
        Some x \<Rightarrow> (x, db)
      | None \<Rightarrow>
          (let x = \<lparr>exp_pk = None, exp_reference_number = rb_number\<rparr>;
               (i, rows) = save_row exp_pk (\<lambda>i r. r\<lparr>exp_pk := Some i\<rparr>) x (experiments db)
           in (x\<lparr>exp_pk := Some i\<rparr>, db\<lparr>experiments := rows\<rparr>)))"

text \<open>
  The versions already stored for a run number under an experiment, in the order the runs
  were created.
\<close>

definition scope_versions :: "database \<Rightarrow> int \<Rightarrow> nat option \<Rightarrow> int list" where
  "scope_versions db run_number e =
     map run_run_version
       (filter (\<lambda>r. run_run_number r = run_number \<and> run_experiment r = e) (reduction_runs db))"

text \<open>
  Modelled from the spec: \<open>db_access.find_highest_run_version(run_number, experiment)\<close>,
  which is missing from the source files. The run version is the smallest non-negative
  integer strictly greater than every existing version in the scope of the experiment
  and run number it is called with: 0 when there is none.
\<close>

definition find_highest_run_version :: "database \<Rightarrow> int \<Rightarrow> experiment_row \<Rightarrow> int" where
  "find_highest_run_version db run_number experiment =
     foldr (\<lambda>v m. max (v + 1) m) (scope_versions db run_number (exp_pk experiment)) 0"

text \<open>
  Modelled from the spec: \<open>db_records.create_reduction_run_record\<close>, which is missing
  from the source files. It builds the unsaved run record of the experiment, instrument,
  message run number, version, script text and status it is given; the time stamps, the
  user message and the logs are empty until a transition writes them.
\<close>

definition create_reduction_run_record ::
  "experiment_row \<Rightarrow> instrument \<Rightarrow> message \<Rightarrow> int \<Rightarrow> string \<Rightarrow> status \<Rightarrow> reduction_run" where
  "create_reduction_run_record experiment instrument message run_version script_text st =
     \<lparr>run_pk = None,
      run_run_number = msg_run_number message,
      run_run_version = run_version,
      run_status = st,
      run_instrument = inst_pk instrument,
      run_experiment = exp_pk experiment,
      run_script = script_text,
      run_started = None,
      run_finished = None,
      run_message = None,
      run_reduction_log = None,
      run_admin_log = None\<rparr>"

subsection \<open>The data-ready handler\<close>

definition get_and_activate_db_inst ::
  "constraints \<Rightarrow> database \<Rightarrow> string \<Rightarrow> (error + instrument) \<times> database" where
  "get_and_activate_db_inst integrity db instrument_name =
     (let (instrument, db1) = get_instrument db instrument_name in
      if \<not> inst_is_active instrument
      then (case save integrity db1 (InstrumentRow (instrument\<lparr>inst_is_active := True\<rparr>)) of
              (Inl e, db2) \<Rightarrow> (Inl e, db2)
            | (Inr i, db2) \<Rightarrow> (Inr (instrument\<lparr>inst_is_active := True, inst_pk := Some i\<rparr>), db2))
      else (Inr instrument, db1))"

text \<open>
  A call of the bound method \<open>reduction_error(reduction_run, message)\<close> with a list of
  positional arguments. Python binds the arguments to the parameters before the body
  runs: a list of another length raises \<open>TypeError\<close>. An object of the wrong kind fails
  in the body, on the first attribute it lacks.
\<close>

datatype pyobj = RunObj reduction_run | MessageObj message

definition call_reduction_error ::
  "constraints \<Rightarrow> datetime \<Rightarrow> database \<Rightarrow> pyobj list \<Rightarrow> (error + reduction_run) \<times> database" where
  "call_reduction_error integrity utcnow db args =
     (case args of
        [RunObj reduction_run, MessageObj message] \<Rightarrow>
          reduction_error integrity utcnow db reduction_run message
      | [_, _] \<Rightarrow> (Inl AttributeError, db)
      | _ \<Rightarrow> (Inl TypeError, db))"

fun str_nat :: "nat \<Rightarrow> string" where
  "str_nat n =
     (if n < 10 then [char_of (48 + n)] else str_nat (n div 10) @ [char_of (48 + n mod 10)])"

definition str_int :: "int \<Rightarrow> string" where
  "str_int i = (if i < 0 then CHR ''-'' # str_nat (nat (- i)) else str_nat (nat i))"

fun str_rb :: "rb_value \<Rightarrow> string" where
  "str_rb (RbInt i) = str_int i"
| "str_rb (RbText s) = s"

text \<open>
  \<open>data_ready\<close>, up to the point where the run and its data location are stored
  (lines 66 to 107). \<open>validate_rb_number\<close> and \<open>get_current_script_text\<close> are the
  validator and the script provider, both outside the source files at hand. The run
  number is looked up as the text of the message's number, which the store reads back as
  the same integer.
\<close>

definition data_ready_record ::
  "constraints \<Rightarrow> (rb_value \<Rightarrow> bool) \<Rightarrow> (string \<Rightarrow> string option) \<Rightarrow> datetime \<Rightarrow> database
     \<Rightarrow> message \<Rightarrow> (error + reduction_run \<times> message \<times> instrument) \<times> database" where
  "data_ready_record integrity validate_rb_number get_current_script_text utcnow db message0 =
     (let message1 =
            (if \<not> validate_rb_number (msg_rb_number message0)
             then message0\<lparr>msg_message :=
                              Some (''Found non-integer RB number: '' @ str_rb (msg_rb_number message0)),
                            msg_rb_number := RbInt 0\<rparr>
             else message0);
          run_no = msg_run_number message1
      in case get_and_activate_db_inst integrity db (msg_instrument message1) of
           (Inl e, db1) \<Rightarrow> (Inl e, db1)
         | (Inr instrument, db1) \<Rightarrow>
             let st = (if inst_is_paused instrument then get_skipped else get_queued);
                 (experiment, db2) = get_experiment db1 (msg_rb_number message1);
                 run_version = find_highest_run_version db2 run_no experiment;
                 message2 = message1\<lparr>msg_run_version := Some run_version\<rparr>
             in case get_current_script_text (inst_name instrument) of
                  None \<Rightarrow>
                    (case call_reduction_error integrity utcnow db2 [MessageObj message2] of
                       (Inl e, db3) \<Rightarrow> (Inl e, db3)
                     | (Inr _, db3) \<Rightarrow> (Inl InvalidStateException, db3))
                | Some script_text \<Rightarrow>
                    (case save_run integrity db2
                            (create_reduction_run_record experiment instrument message2
                               run_version script_text st) of
                       (Inl e, db3) \<Rightarrow> (Inl e, db3)
                     | (Inr reduction_run, db3) \<Rightarrow>
                         (case safe_save integrity db3
                                 (DataLocationRow \<lparr>dl_pk = None, dl_file_path = msg_data message2,
                                                   dl_reduction_run_id = run_pk reduction_run\<rparr>) of
                            (Inl e, db4) \<Rightarrow> (Inl e, db4)
                          | (Inr _, db4) \<Rightarrow> (Inr (reduction_run, message2, instrument), db4))))"

text \<open>
  The whole handler. \<open>prepare\<close> stands for lines 109 to 125: creating the run's variables
  and reading back the script and its arguments into the message. Both are done by
  utility classes outside the source files at hand, on the variable tables; a fault they
  raise is passed on.
\<close>

definition data_ready ::
  "constraints \<Rightarrow> (rb_value \<Rightarrow> bool) \<Rightarrow> (string \<Rightarrow> string option)
     \<Rightarrow> (reduction_run \<Rightarrow> message \<Rightarrow> error + message)
     \<Rightarrow> (message \<Rightarrow> bool) \<Rightarrow> (message \<Rightarrow> bool \<times> message) \<Rightarrow> datetime \<Rightarrow> datetime
     \<Rightarrow> database \<Rightarrow> message \<Rightarrow> (error + reduction_run) \<times> database" where
  "data_ready integrity validate_rb_number get_current_script_text prepare validate run_process
       t1 t2 db message =
     (case data_ready_record integrity validate_rb_number get_current_script_text t1 db message of
        (Inl e, db1) \<Rightarrow> (Inl e, db1)
      | (Inr (reduction_run, message1, instrument), db1) \<Rightarrow>
          (case prepare reduction_run message1 of
             Inl e \<Rightarrow> (Inl e, db1)
           | Inr message2 \<Rightarrow>
               send_message_onwards integrity validate run_process t1 t2 db1 reduction_run
                 message2 instrument))"

text \<open>
  A sequence of data-ready events, each with its two clock readings, handled one after
  the other on the same store. A fault ends the handling of its own event only.
\<close>

fun data_ready_events ::
  "constraints \<Rightarrow> (rb_value \<Rightarrow> bool) \<Rightarrow> (string \<Rightarrow> string option)
     \<Rightarrow> (reduction_run \<Rightarrow> message \<Rightarrow> error + message)
     \<Rightarrow> (message \<Rightarrow> bool) \<Rightarrow> (message \<Rightarrow> bool \<times> message)
     \<Rightarrow> database \<Rightarrow> (message \<times> datetime \<times> datetime) list \<Rightarrow> database" where
  "data_ready_events integrity validate_rb_number get_current_script_text prepare validate
       run_process db [] = db"
| "data_ready_events integrity validate_rb_number get_current_script_text prepare validate
       run_process db ((message, t1, t2) # events) =
     data_ready_events integrity validate_rb_number get_current_script_text prepare validate
       run_process
       (snd (data_ready integrity validate_rb_number get_current_script_text prepare validate
               run_process t1 t2 db message))
       events"

section \<open>The configuration resolver (instrument\_variable\_utils.py)\<close>

subsection \<open>Dictionaries and the objects that hold them\<close>

text \<open>
  A Python dictionary keeps its keys in insertion order and holds each key once: an
  association list. Assigning to a key that is present keeps its place.
\<close>

type_synonym 'v dict = "(string \<times> 'v) list"

fun dict_set :: "string \<Rightarrow> 'v \<Rightarrow> 'v dict \<Rightarrow> 'v dict" where
  "dict_set k v [] = [(k, v)]"
| "dict_set k v ((k', v') # d) = (if k = k' then (k, v) # d else (k', v') # dict_set k v d)"

text \<open>
  The store of dictionary objects: an object's address is its index. \<open>deepcopy\<close> makes a
  new object with the same content (the values are immutable here, so copying them is the
  identity); \<open>getattr(module, name, {})\<close> of a missing attribute makes a new empty one.
\<close>

type_synonym 'v heap = "'v dict list"

definition deepcopy :: "'v heap \<Rightarrow> nat \<Rightarrow> nat \<times> 'v heap" where
  "deepcopy h a = (length h, h @ [h ! a])"

definition deepcopy_getattr :: "'v heap \<Rightarrow> nat option \<Rightarrow> nat \<times> 'v heap" where
  "deepcopy_getattr h attr =
     (case attr of
        None \<Rightarrow> deepcopy (h @ [[]]) (length h)
      | Some a \<Rightarrow> deepcopy h a)"

type_synonym help_texts = "(string \<times> (string \<times> string) list) list"

record reduce_vars_module =
  mod_standard_vars :: "nat option"
  mod_advanced_vars :: "nat option"
  mod_variable_help :: "help_texts option"

record reduction_args =
  ra_standard_vars :: nat
  ra_advanced_vars :: nat
  ra_variable_help :: help_texts

subsection \<open>Merging the override arguments\<close>

text \<open>
  \<open>get_type_string\<close> and \<open>convert_variable_to_type\<close> belong to \<open>VariableUtils\<close>, outside
  the source files at hand: parameters. The loop of \<open>set_with_correct_type\<close> over the
  items of one override section, on the content of the dictionary it writes to; reading a
  name that the dictionary lacks raises \<open>KeyError\<close>, and what was written before stays.
\<close>

fun set_items ::
  "('v \<Rightarrow> string) \<Rightarrow> ('v \<Rightarrow> string \<Rightarrow> 'v) \<Rightarrow> 'v dict \<Rightarrow> 'v dict \<Rightarrow> error option \<times> 'v dict" where
  "set_items get_type_string convert_variable_to_type [] d = (None, d)"
| "set_items get_type_string convert_variable_to_type ((name, val) # rest) d =
     (case map_of d name of
        None \<Rightarrow> (Some (KeyError name), d)
      | Some current \<Rightarrow>
          (let real_type = get_type_string current
           in set_items get_type_string convert_variable_to_type rest
                (dict_set name (convert_variable_to_type val real_type) d)))"

definition set_with_correct_type ::
  "('v \<Rightarrow> string) \<Rightarrow> ('v \<Rightarrow> string \<Rightarrow> 'v) \<Rightarrow> (string \<times> 'v dict) list \<Rightarrow> 'v heap
     \<Rightarrow> (string \<times> nat) list \<Rightarrow> string \<Rightarrow> error option \<times> 'v heap" where
  "set_with_correct_type get_type_string convert_variable_to_type message_reduction_arguments h
       reduction_args dict_name =
     (case (map_of message_reduction_arguments dict_name, map_of reduction_args dict_name) of
        (Some overrides, Some a) \<Rightarrow>
          (let (e, d) = set_items get_type_string convert_variable_to_type overrides (h ! a)
           in (e, h[a := d]))
      | _ \<Rightarrow> (None, h))"

definition merge_arguments ::
  "('v \<Rightarrow> string) \<Rightarrow> ('v \<Rightarrow> string \<Rightarrow> 'v) \<Rightarrow> (string \<times> 'v dict) list \<Rightarrow> 'v heap
     \<Rightarrow> reduce_vars_module \<Rightarrow> (error + reduction_args) \<times> 'v heap" where
  "merge_arguments get_type_string convert_variable_to_type message_reduction_arguments h
       reduce_vars_module =
     (let (a_std, h1) = deepcopy_getattr h (mod_standard_vars reduce_vars_module);
          (a_adv, h2) = deepcopy_getattr h1 (mod_advanced_vars reduce_vars_module);
          reduction_args = [(''standard_vars'', a_std), (''advanced_vars'', a_adv)]
      in case set_with_correct_type get_type_string convert_variable_to_type
                message_reduction_arguments h2 reduction_args ''standard_vars'' of
           (Some e, h3) \<Rightarrow> (Inl e, h3)
         | (None, h3) \<Rightarrow>
             (case set_with_correct_type get_type_string convert_variable_to_type
                     message_reduction_arguments h3 reduction_args ''advanced_vars'' of
                (Some e, h4) \<Rightarrow> (Inl e, h4)
              | (None, h4) \<Rightarrow>
                  (Inr \<lparr>ra_standard_vars = a_std, ra_advanced_vars = a_adv,
                        ra_variable_help =
                          (case mod_variable_help reduce_vars_module of
                             None \<Rightarrow> [] | Some x \<Rightarrow> x)\<rparr>, h4)))"

subsection \<open>Stored instrument variables\<close>

text \<open>
  A row of the InstrumentVariable table, and the object in memory that carries it. The
  scope columns are \<open>experiment_reference\<close> and \<open>start_run\<close>, the ones the queries
  name. \<open>var_reference_number\<close> is the attribute \<open>reference_number\<close> that
  \<open>find_or_make_variables\<close> assigns: no query or keyword in the sources names a column
  so, hence it lives on the object only and a save does not write it.
\<close>

record instrument_variable =
  var_pk :: "nat option"
  var_name :: string
  var_value :: string
  var_type :: string
  var_help_text :: string
  var_is_advanced :: bool
  var_instrument_id :: nat
  var_experiment_reference :: "int option"
  var_start_run :: "int option"
  var_tracks_script :: bool
  var_reference_number :: "int option"

text \<open>
  \<open>variable.save()\<close> on the variable table; the object gets the key of its row. This
  file of the source neither catches nor raises a store fault, and the table's writes are
  taken as accepted.
\<close>

definition save_variable ::
  "instrument_variable list \<Rightarrow> instrument_variable
     \<Rightarrow> instrument_variable \<times> instrument_variable list" where
  "save_variable table v =
     (let (i, rows) =
            save_row var_pk (\<lambda>i r. r\<lparr>var_pk := Some i\<rparr>) (v\<lparr>var_reference_number := None\<rparr>) table
      in (v\<lparr>var_pk := Some i\<rparr>, rows))"

text \<open>
  \<open>QuerySet.get\<close>: the single row that matches; none raises \<open>ObjectDoesNotExist\<close>, more
  than one \<open>MultipleObjectsReturned\<close>.
\<close>

definition queryset_get :: "('a \<Rightarrow> bool) \<Rightarrow> 'a list \<Rightarrow> error + 'a" where
  "queryset_get p rows =
     (case filter p rows of
        [] \<Rightarrow> Inl ObjectDoesNotExist
      | [x] \<Rightarrow> Inr x
      | _ \<Rightarrow> Inl MultipleObjectsReturned)"

text \<open>
  \<open>order_by("-start_run").first()\<close>: the row of greatest \<open>start_run\<close>, a row without one
  coming after every row that has one; among equals, the row stored first.
\<close>

fun start_run_le :: "int option \<Rightarrow> int option \<Rightarrow> bool" where
  "start_run_le None _ = True"
| "start_run_le (Some a) None = False"
| "start_run_le (Some a) (Some b) = (a \<le> b)"

fun order_by_start_run_desc_first :: "instrument_variable list \<Rightarrow> instrument_variable option" where
  "order_by_start_run_desc_first [] = None"
| "order_by_start_run_desc_first (v # vs) =
     (case order_by_start_run_desc_first vs of
        None \<Rightarrow> Some v
      | Some w \<Rightarrow> if start_run_le (var_start_run w) (var_start_run v) then Some v else Some w)"

text \<open>
  \<open>_find_appropriate_variable\<close>, on the rows that the query set \<open>possible_variables\<close>
  yields when it is called. A look-up for the value \<open>None\<close> matches the rows whose column
  is empty. A row object is truthy.
\<close>

definition find_appropriate_variable ::
  "instrument_variable list \<Rightarrow> string \<Rightarrow> int option \<Rightarrow> error + instrument_variable option" where
  "find_appropriate_variable possible_variables name expriment_reference =
     (case queryset_get (\<lambda>v. var_name v = name \<and> var_experiment_reference v = expriment_reference)
             possible_variables of
        Inl ObjectDoesNotExist \<Rightarrow>
          Inr (order_by_start_run_desc_first (filter (\<lambda>v. var_name v = name) possible_variables))
      | Inl e \<Rightarrow> Inl e
      | Inr variables_set_for_experiment \<Rightarrow> Inr (Some variables_set_for_experiment))"

definition update_or_copy_if_changed ::
  "instrument_variable list \<Rightarrow> instrument_variable \<Rightarrow> string \<Rightarrow> string \<Rightarrow> string \<Rightarrow> int
     \<Rightarrow> instrument_variable \<times> instrument_variable list" where
  "update_or_copy_if_changed table variable new_value new_type new_help_text run_number =
     (let changed = (new_value \<noteq> var_value variable \<or> new_type \<noteq> var_type variable
                       \<or> new_help_text \<noteq> var_help_text variable);
          v1 = (if new_value \<noteq> var_value variable then variable\<lparr>var_value := new_value\<rparr>
                else variable);
          v2 = (if new_type \<noteq> var_type v1 then v1\<lparr>var_type := new_type\<rparr> else v1);
          v3 = (if new_help_text \<noteq> var_help_text v2 then v2\<lparr>var_help_text := new_help_text\<rparr>
                else v2)
      in if changed
         then (let v4 = (if var_start_run v3 \<noteq> Some run_number
                         then v3\<lparr>var_pk := None, var_start_run := Some run_number\<rparr>
                         else v3)
               in save_variable table v4)
         else (v3, table))"

text \<open>Help texts: \<open>html.escape\<close>, then line breaks and tabs as markup.\<close>

fun html_escape_char :: "char \<Rightarrow> string" where
  "html_escape_char c =
     (if c = CHR ''&'' then ''&amp;''
      else if c = CHR ''<'' then ''&lt;''
      else if c = CHR ''>'' then ''&gt;''
      else if c = CHR 0x22 then ''&quot;''
      else if c = CHR 0x27 then ''&#x27;''
      else [c])"

definition replace_special_chars :: "string \<Rightarrow> string" where
  "replace_special_chars help_text =
     concat (map (\<lambda>c. if c = CHR 0x0A then ''<br>''
                       else if c = CHR 0x09 then ''&nbsp;&nbsp;&nbsp;&nbsp;''
                       else [c])
               (concat (map html_escape_char help_text)))"

definition get_help_text :: "string \<Rightarrow> string \<Rightarrow> help_texts \<Rightarrow> string" where
  "get_help_text dict_name key variable_help =
     (case map_of variable_help dict_name of
        None \<Rightarrow> ''''
      | Some texts \<Rightarrow>
          (case map_of texts key of
             None \<Rightarrow> ''''
           | Some text \<Rightarrow> replace_special_chars text))"

text \<open>
  \<open>find_or_make_variables\<close>. The query set \<open>possible_variables\<close> is the filter
  \<open>possible\<close> on the table as it stands at each look-up; \<open>possible_variables.create\<close>
  inserts a row of the keyword values, every other column empty. \<open>py_str\<close> is Python's
  \<open>str\<close> on the values of the script. The arguments' three dictionaries are read only.
\<close>

record 'v resolved_arguments =
  standard_vars :: "(string \<times> 'v) list"
  advanced_vars :: "(string \<times> 'v) list"
  variable_help :: help_texts

fun truthy :: "int option \<Rightarrow> bool" where
  "truthy None = False"
| "truthy (Some i) = (i \<noteq> 0)"

fun find_or_make_loop ::
  "('v \<Rightarrow> string) \<Rightarrow> ('v \<Rightarrow> string) \<Rightarrow> (instrument_variable \<Rightarrow> bool) \<Rightarrow> int \<Rightarrow> nat \<Rightarrow> help_texts
     \<Rightarrow> int option \<Rightarrow> bool \<Rightarrow> bool \<Rightarrow> instrument_variable list
     \<Rightarrow> (string \<times> 'v \<times> bool) list \<Rightarrow> instrument_variable list
     \<Rightarrow> (error + instrument_variable list) \<times> instrument_variable list" where
  "find_or_make_loop py_str get_type_string possible run_number instrument_id help_dict
       experiment_reference tracks_script force_update table [] variables = (Inr variables, table)"
| "find_or_make_loop py_str get_type_string possible run_number instrument_id help_dict
       experiment_reference tracks_script force_update table ((name, val, is_advanced) # rest)
       variables =
     (let script_help_text =
            get_help_text (if \<not> is_advanced then ''standard_vars'' else ''advanced_vars'') name help_dict;
          script_value = filter (\<lambda>c. c \<noteq> CHR ''['' \<and> c \<noteq> CHR '']'') (py_str val);
          script_type = get_type_string val
      in case find_appropriate_variable (filter possible table) name experiment_reference of
           Inl e \<Rightarrow> (Inl e, table)
         | Inr None \<Rightarrow>
             (let (created, table1) =
                    save_variable table
                      \<lparr>var_pk = None, var_name = name, var_value = script_value,
                       var_type = script_type, var_help_text = script_help_text,
                       var_is_advanced = is_advanced, var_instrument_id = instrument_id,
                       var_experiment_reference = None, var_start_run = None,
                       var_tracks_script = False, var_reference_number = None\<rparr>;
                  v1 = created\<lparr>var_tracks_script := tracks_script\<rparr>;
                  v2 = (if truthy experiment_reference
                        then v1\<lparr>var_reference_number := experiment_reference\<rparr>
                        else v1\<lparr>var_start_run := Some run_number\<rparr>);
                  (variable, table2) = save_variable table1 v2
              in find_or_make_loop py_str get_type_string possible run_number instrument_id help_dict
                   experiment_reference tracks_script force_update table2 rest
                   (variables @ [variable]))
         | Inr (Some found) \<Rightarrow>
             (let (variable, table1) =
                    (if var_tracks_script found \<or> force_update
                     then update_or_copy_if_changed table found script_value script_type
                            script_help_text run_number
                     else (found, table))
              in find_or_make_loop py_str get_type_string possible run_number instrument_id help_dict
                   experiment_reference tracks_script force_update table1 rest
                   (variables @ [variable])))"

definition find_or_make_variables ::
  "('v \<Rightarrow> string) \<Rightarrow> ('v \<Rightarrow> string) \<Rightarrow> (instrument_variable \<Rightarrow> bool) \<Rightarrow> instrument_variable list
     \<Rightarrow> int \<Rightarrow> nat \<Rightarrow> 'v resolved_arguments \<Rightarrow> int option \<Rightarrow> bool \<Rightarrow> bool
     \<Rightarrow> (error + instrument_variable list) \<times> instrument_variable list" where
  "find_or_make_variables py_str get_type_string possible table run_number instrument_id
       reduction_arguments experiment_reference tracks_script force_update =
     (let all_vars = map (\<lambda>(name, val). (name, val, False)) (standard_vars reduction_arguments)
                     @ map (\<lambda>(name, val). (name, val, True)) (advanced_vars reduction_arguments)
      in if length all_vars = 0 then (Inr [], table)
         else find_or_make_loop py_str get_type_string possible run_number instrument_id
                (variable_help reduction_arguments) experiment_reference tracks_script
                force_update table all_vars [])"

text \<open>
  \<open>create_run_variables\<close>. \<open>reduce_vars_module\<close> is what \<open>ReductionScript.load\<close>
  returns, and \<open>save_run_variables\<close> is the \<open>VariableUtils\<close> method that stores the
  snapshot; both are outside the source files at hand. The resolver is called without an
  experiment reference, so that its parameter takes the default \<open>None\<close>, and with the
  defaults \<open>tracks_script=True\<close> and \<open>force_update=False\<close>. The method is
  decorated with \<open>transaction.atomic\<close>: when a fault leaves it, the rows written to the
  variable table during the call are rolled back, while the dictionary objects, which live
  in memory, stay as the call left them.
\<close>

record run_scope =
  scope_instrument_id :: nat
  scope_experiment_reference :: int
  scope_run_number :: int

definition create_run_variables ::
  "('v \<Rightarrow> string) \<Rightarrow> ('v \<Rightarrow> string) \<Rightarrow> ('v \<Rightarrow> string \<Rightarrow> 'v)
     \<Rightarrow> (instrument_variable list \<Rightarrow> run_scope \<Rightarrow> 'r)
     \<Rightarrow> 'v heap \<Rightarrow> instrument_variable list \<Rightarrow> reduce_vars_module \<Rightarrow> run_scope
     \<Rightarrow> (string \<times> 'v dict) list
     \<Rightarrow> (error + 'r) \<times> 'v heap \<times> instrument_variable list" where
  "create_run_variables py_str get_type_string convert_variable_to_type save_run_variables
       h table reduce_vars_module reduction_run message_reduction_arguments =
     (let experiment_reference = scope_experiment_reference reduction_run;
          run_number = scope_run_number reduction_run;
          instrument_id = scope_instrument_id reduction_run;
          possible = (\<lambda>v. (var_experiment_reference v = Some experiment_reference
                              \<or> (case var_start_run v of None \<Rightarrow> False | Some s \<Rightarrow> s \<le> run_number))
                            \<and> var_instrument_id v = instrument_id)
      in case merge_arguments get_type_string convert_variable_to_type
                message_reduction_arguments h reduce_vars_module of
           (Inl e, h1) \<Rightarrow> (Inl e, h1, table)
         | (Inr final_reduction_arguments, h1) \<Rightarrow>
             (case find_or_make_variables py_str get_type_string possible table run_number
                     instrument_id
                     \<lparr>standard_vars = h1 ! ra_standard_vars final_reduction_arguments,
                      advanced_vars = h1 ! ra_advanced_vars final_reduction_arguments,
                      variable_help = ra_variable_help final_reduction_arguments\<rparr>
                     None True False of
                (Inl e, table1) \<Rightarrow> (Inl e, h1, table)
              | (Inr variables, table1) \<Rightarrow>
                  (Inr (save_run_variables variables reduction_run), h1, table1)))"

section \<open>Concrete stores, runs and variables\<close>

definition accept_all :: constraints where
  "accept_all db obj = True"

definition demo_message :: message where
  "demo_message =
     \<lparr>msg_run_number = 100, msg_instrument = ''DEMO'', msg_rb_number = RbInt 1234567,
      msg_run_version = None, msg_data = ''/x/DEMO00100.nxs'', msg_message = None,
      msg_reduction_data = None, msg_reduction_log = None, msg_admin_log = None\<rparr>"

definition demo_result :: message where
  "demo_result = demo_message\<lparr>msg_run_version := Some 0, msg_reduction_data := Some [''/out/a'', ''/out/b'']\<rparr>"

definition demo_run :: "status \<Rightarrow> reduction_run" where
  "demo_run st =
     \<lparr>run_pk = Some 1, run_run_number = 100, run_run_version = 0, run_status = st,
      run_instrument = Some 1, run_experiment = Some 1, run_script = ''def main(): pass'',
      run_started = None, run_finished = None, run_message = None, run_reduction_log = None,
      run_admin_log = None\<rparr>"

definition demo_db :: "status \<Rightarrow> database" where
  "demo_db st =
     \<lparr>instruments = [\<lparr>inst_pk = Some 1, inst_name = ''DEMO'', inst_is_active = True,
                       inst_is_paused = False\<rparr>],
      experiments = [\<lparr>exp_pk = Some 1, exp_reference_number = RbInt 1234567\<rparr>],
      reduction_runs = [demo_run st],
      data_locations = [\<lparr>dl_pk = Some 1, dl_file_path = ''/x/DEMO00100.nxs'',
                          dl_reduction_run_id = Some 1\<rparr>],
      reduction_locations = []\<rparr>"

definition empty_db :: database where
  "empty_db = \<lparr>instruments = [], experiments = [], reduction_runs = [], data_locations = [],
               reduction_locations = []\<rparr>"

definition no_script :: "string \<Rightarrow> string option" where
  "no_script name = None"

definition demo_script :: "string \<Rightarrow> string option" where
  "demo_script name = Some ''def main(): pass''"

definition seven_digits :: "rb_value \<Rightarrow> bool" where
  "seven_digits rb = (case rb of RbInt i \<Rightarrow> 1000000 \<le> i \<and> i \<le> 9999999 | RbText s \<Rightarrow> False)"

definition launch_ok :: "message \<Rightarrow> bool \<times> message" where
  "launch_ok m = (True, m\<lparr>msg_reduction_data := Some [''/out/a'']\<rparr>)"

definition number_type :: "int \<Rightarrow> string" where
  "number_type v = ''number''"

definition keep_value :: "int \<Rightarrow> string \<Rightarrow> int" where
  "keep_value v t = v"

definition variable_x :: "nat \<Rightarrow> string \<Rightarrow> int option \<Rightarrow> int option \<Rightarrow> bool \<Rightarrow> instrument_variable" where
  "variable_x pk val reference start tracks =
     \<lparr>var_pk = Some pk, var_name = ''x'', var_value = val, var_type = ''number'',
      var_help_text = '''', var_is_advanced = False, var_instrument_id = 1,
      var_experiment_reference = reference, var_start_run = start, var_tracks_script = tracks,
      var_reference_number = None\<rparr>"

definition in_scope :: "instrument_variable \<Rightarrow> bool" where
  "in_scope v =
     ((var_experiment_reference v = Some 1234567
        \<or> (case var_start_run v of None \<Rightarrow> False | Some s \<Rightarrow> s \<le> 10))
      \<and> var_instrument_id v = 1)"

definition script_x :: "int \<Rightarrow> int resolved_arguments" where
  "script_x v = \<lparr>standard_vars = [(''x'', v)], advanced_vars = [], variable_help = []\<rparr>"

definition demo_module :: reduce_vars_module where
  "demo_module = \<lparr>mod_standard_vars = Some 0, mod_advanced_vars = Some 1,
                  mod_variable_help = None\<rparr>"

definition demo_scope :: run_scope where
  "demo_scope = \<lparr>scope_instrument_id = 1, scope_experiment_reference = 1234567,
                 scope_run_number = 10\<rparr>"

definition snapshot_of :: "instrument_variable list \<Rightarrow> run_scope \<Rightarrow> instrument_variable list" where
  "snapshot_of variables reduction_run = variables"

definition in_scope_upto :: "int \<Rightarrow> instrument_variable \<Rightarrow> bool" where
  "in_scope_upto run_number v =
     ((var_experiment_reference v = Some 1234567
        \<or> (case var_start_run v of None \<Rightarrow> False | Some s \<Rightarrow> s \<le> run_number))
      \<and> var_instrument_id v = 1)"

definition later_scope :: run_scope where
  "later_scope = \<lparr>scope_instrument_id = 1, scope_experiment_reference = 1234567,
                  scope_run_number = 11\<rparr>"

section \<open>What identifies a stored run\<close>

text \<open>
  The key of a run row together with the columns that no transition writes: its run
  number, its experiment and its version. A run object owns its rows in a store when it
  has a key, a row of its identity is stored, and every row under its key has its
  identity.
\<close>

definition run_ident :: "reduction_run \<Rightarrow> nat option \<times> int \<times> nat option \<times> int" where
  "run_ident r = (run_pk r, run_run_number r, run_experiment r, run_run_version r)"

definition owns :: "database \<Rightarrow> reduction_run \<Rightarrow> bool" where
  "owns db r \<longleftrightarrow>
     run_pk r \<noteq> None \<and> run_ident r \<in> set (map run_ident (reduction_runs db))
     \<and> (\<forall>j \<in> set (map run_ident (reduction_runs db)). fst j = run_pk r \<longrightarrow> j = run_ident r)"

definition same_runs :: "database \<Rightarrow> database \<Rightarrow> bool" where
  "same_runs db db' \<longleftrightarrow>
     map run_ident (reduction_runs db') = map run_ident (reduction_runs db)
     \<and> experiments db' = experiments db"

section \<open>Saving rows\<close>

lemma save_run_rejected:
  "\<not> integrity db (RunRow r) \<Longrightarrow> save_run integrity db r = (Inl IntegrityError, db)"
  by (simp add: save_run_def safe_save_def save_def)

lemma save_row_result:
  assumes "save_row pk set_pk obj rows = (i, rows')" and "\<And>j x. pk (set_pk j x) = Some j"
  shows "\<exists>x \<in> set rows'. pk x = Some i \<and> (x = obj \<or> (pk obj = None \<and> x = set_pk i obj))"
  using assms
  by (auto simp: save_row_def Let_def list_ex_iff split: option.splits if_splits)

lemma save_run_accepted:
  assumes "integrity db (RunRow r)"
  shows "\<exists>i db'. save_run integrity db r = (Inr (r\<lparr>run_pk := Some i\<rparr>), db')
           \<and> r\<lparr>run_pk := Some i\<rparr> \<in> set (reduction_runs db')
           \<and> instruments db' = instruments db \<and> experiments db' = experiments db
           \<and> data_locations db' = data_locations db
           \<and> reduction_locations db' = reduction_locations db"
proof -
  obtain i rows where
    s: "save_row run_pk (\<lambda>i r. r\<lparr>run_pk := Some i\<rparr>) r (reduction_runs db) = (i, rows)"
    by (cases "save_row run_pk (\<lambda>i r. r\<lparr>run_pk := Some i\<rparr>) r (reduction_runs db)")
  from save_row_result[OF s] have "r\<lparr>run_pk := Some i\<rparr> \<in> set rows"
    by auto (metis reduction_run.surjective reduction_run.update_convs(1))
  with s assms show ?thesis
    by (auto simp: save_run_def safe_save_def save_def intro!: exI[of _ i])
qed

lemma save_run_pk:
  assumes "integrity db (RunRow r)" and "run_pk r = Some k"
  shows "\<exists>db'. save_run integrity db r = (Inr r, db') \<and> r \<in> set (reduction_runs db')
           \<and> instruments db' = instruments db \<and> experiments db' = experiments db
           \<and> data_locations db' = data_locations db
           \<and> reduction_locations db' = reduction_locations db"
proof -
  from save_run_accepted[of integrity db r] assms(1) obtain i db' where
    s: "save_run integrity db r = (Inr (r\<lparr>run_pk := Some i\<rparr>), db')"
    and rest: "r\<lparr>run_pk := Some i\<rparr> \<in> set (reduction_runs db')"
      "instruments db' = instruments db" "experiments db' = experiments db"
      "data_locations db' = data_locations db" "reduction_locations db' = reduction_locations db"
    by blast
  have "i = k"
    using s assms
    by (auto simp: save_run_def safe_save_def save_def save_row_def Let_def
             split: if_splits prod.splits dest!: arg_cong[where f = run_pk])
  with assms(2) have "r\<lparr>run_pk := Some i\<rparr> = r" by simp
  with s rest show ?thesis by auto
qed

lemma save_reduction_locations_accepted:
  assumes "\<forall>d x. integrity d x" and "run_pk r = Some k"
  shows "\<exists>new. save_reduction_locations integrity db r locs
                  = (None, db\<lparr>reduction_locations := reduction_locations db @ new\<rparr>)
           \<and> map rl_file_path new = locs \<and> (\<forall>x \<in> set new. rl_reduction_run x = Some k)"
proof (induction locs arbitrary: db)
  case Nil
  show ?case by (rule exI[of _ "[]"]) simp
next
  case (Cons location rest)
  let ?x = "\<lparr>rl_pk = Some (fresh_pk rl_pk (reduction_locations db)), rl_file_path = location,
             rl_reduction_run = Some k\<rparr>"
  let ?db1 = "db\<lparr>reduction_locations := reduction_locations db @ [?x]\<rparr>"
  have step: "safe_save integrity db (ReductionLocationRow \<lparr>rl_pk = None, rl_file_path = location,
                 rl_reduction_run = run_pk r\<rparr>) = (Inr (fresh_pk rl_pk (reduction_locations db)), ?db1)"
    using assms by (simp add: safe_save_def save_def save_row_def Let_def)
  from Cons.IH[of ?db1] obtain new where
    n: "save_reduction_locations integrity ?db1 r rest
          = (None, ?db1\<lparr>reduction_locations := reduction_locations ?db1 @ new\<rparr>)"
       "map rl_file_path new = rest" "\<forall>x \<in> set new. rl_reduction_run x = Some k"
    by blast
  show ?case
    by (rule exI[of _ "?x # new"]) (simp add: step n)
qed

section \<open>The state machine\<close>

text \<open>
  C1. \<open>reduction_started\<close> raises the illegal-transition fault on a run that is
  Completed, Skipped or already Processing, and leaves the store alone. On a run that is
  Queued or in Error it sets the status to Processing, stamps the start time and saves the
  run: the saved row is in the store afterwards, unless the store refuses the write, which
  raises the store's integrity fault.
\<close>

theorem reduction_started_transitions:
  "(run_status r \<in> {Completed, Skipped, Processing} \<longrightarrow>
      reduction_started integrity t db r m = (Inl InvalidStateException, db))
   \<and> (run_status r \<in> {Queued, Error} \<longrightarrow>
        (let r1 = r\<lparr>run_status := Processing, run_started := Some t\<rparr> in
         if integrity db (RunRow r1)
         then \<exists>i db'. reduction_started integrity t db r m = (Inr (r1\<lparr>run_pk := Some i\<rparr>), db')
                \<and> r1\<lparr>run_pk := Some i\<rparr> \<in> set (reduction_runs db')
         else reduction_started integrity t db r m = (Inl IntegrityError, db)))"
proof (cases "run_status r")
  case Queued
  then show ?thesis
    using save_run_accepted[of integrity db "r\<lparr>run_status := Processing, run_started := Some t\<rparr>"]
          save_run_rejected[of integrity db "r\<lparr>run_status := Processing, run_started := Some t\<rparr>"]
    by (auto simp: reduction_started_def get_processing_def Let_def)
next
  case Error
  then show ?thesis
    using save_run_accepted[of integrity db "r\<lparr>run_status := Processing, run_started := Some t\<rparr>"]
          save_run_rejected[of integrity db "r\<lparr>run_status := Processing, run_started := Some t\<rparr>"]
    by (auto simp: reduction_started_def get_processing_def Let_def)
qed (simp_all add: reduction_started_def)

theorem reduction_started_transitions_witness:
  "run_status (demo_run Completed) \<in> {Completed, Skipped, Processing}
   \<and> reduction_started accept_all 5 (demo_db Completed) (demo_run Completed) demo_message
       = (Inl InvalidStateException, demo_db Completed)
   \<and> run_status (demo_run Queued) \<in> {Queued, Error}
   \<and> (\<exists>i db'. reduction_started accept_all 5 (demo_db Queued) (demo_run Queued) demo_message
         = (Inr ((demo_run Queued)\<lparr>run_status := Processing, run_started := Some 5,
                                   run_pk := Some i\<rparr>), db')
        \<and> (demo_run Queued)\<lparr>run_status := Processing, run_started := Some 5, run_pk := Some i\<rparr>
            \<in> set (reduction_runs db'))"
  using reduction_started_transitions[where r = "demo_run Completed" and integrity = accept_all
          and t = 5 and db = "demo_db Completed" and m = demo_message]
        reduction_started_transitions[where r = "demo_run Queued" and integrity = accept_all
          and t = 5 and db = "demo_db Queued" and m = demo_message]
  by (simp add: demo_run_def accept_all_def Let_def)

text \<open>
  C3. \<open>reduction_complete\<close> raises the illegal-transition fault on a run that is not
  Processing. On a stored run that is Processing, with a store that accepts the writes,
  it sets the status to Completed, stamps the finish time, saves the run and appends one
  new ReductionLocation, owned by the run, for each output location of the message, in
  their order. \<open>do_reduction\<close> takes this transition when the process has finished and
  the returned message carries no error text.
\<close>

theorem reduction_complete_transition:
  "(run_status r \<noteq> Processing \<longrightarrow>
      reduction_complete integrity t db r m = (Inl InvalidStateException, db))
   \<and> (run_status r = Processing \<and> run_pk r = Some k \<and> (\<forall>d x. integrity d x) \<longrightarrow>
        (\<exists>db' new.
           reduction_complete integrity t db r m
             = (Inr (common_reduction_run_update t r Completed m), db')
           \<and> run_status (common_reduction_run_update t r Completed m) = Completed
           \<and> run_finished (common_reduction_run_update t r Completed m) = Some t
           \<and> common_reduction_run_update t r Completed m \<in> set (reduction_runs db')
           \<and> reduction_locations db' = reduction_locations db @ new
           \<and> map rl_file_path new = (case msg_reduction_data m of None \<Rightarrow> [] | Some locs \<Rightarrow> locs)
           \<and> (\<forall>x \<in> set new. rl_reduction_run x = Some k)))
   \<and> (reduction_started integrity t0 db0 r0 m0 = (Inr r, db) \<and> run_process m0 = (True, m)
        \<and> msg_message m = None \<longrightarrow>
        do_reduction integrity run_process t0 t db0 r0 m0 = reduction_complete integrity t db r m)"
proof (intro conjI impI)
  assume "run_status r \<noteq> Processing"
  then show "reduction_complete integrity t db r m = (Inl InvalidStateException, db)"
    by (cases "run_status r") (simp_all add: reduction_complete_def)
next
  assume a: "run_status r = Processing \<and> run_pk r = Some k \<and> (\<forall>d x. integrity d x)"
  let ?r1 = "common_reduction_run_update t r Completed m"
  let ?locs = "case msg_reduction_data m of None \<Rightarrow> [] | Some locs \<Rightarrow> locs"
  have pk1: "run_pk ?r1 = Some k" using a by (simp add: common_reduction_run_update_def)
  from save_reduction_locations_accepted[of integrity ?r1 k db ?locs] a pk1
  obtain new where
    n: "save_reduction_locations integrity db ?r1 ?locs
          = (None, db\<lparr>reduction_locations := reduction_locations db @ new\<rparr>)"
       "map rl_file_path new = ?locs" "\<forall>x \<in> set new. rl_reduction_run x = Some k"
    by blast
  let ?db1 = "db\<lparr>reduction_locations := reduction_locations db @ new\<rparr>"
  have loop: "(case msg_reduction_data m of None \<Rightarrow> (None, db)
               | Some locations \<Rightarrow> save_reduction_locations integrity db ?r1 locations)
              = (None, ?db1)"
  proof (cases "msg_reduction_data m")
    case None
    with n show ?thesis by simp
  next
    case (Some locs)
    with n show ?thesis by simp
  qed
  from save_run_pk[of integrity ?db1 ?r1 k] a pk1 obtain db' where
    s: "save_run integrity ?db1 ?r1 = (Inr ?r1, db')" "?r1 \<in> set (reduction_runs db')"
       "reduction_locations db' = reduction_locations ?db1"
    by blast
  have res: "reduction_complete integrity t db r m = (Inr ?r1, db')"
    using a loop s(1) by (simp add: reduction_complete_def get_completed_def Let_def)
  show "\<exists>db' new.
           reduction_complete integrity t db r m = (Inr ?r1, db')
           \<and> run_status ?r1 = Completed
           \<and> run_finished ?r1 = Some t
           \<and> ?r1 \<in> set (reduction_runs db')
           \<and> reduction_locations db' = reduction_locations db @ new
           \<and> map rl_file_path new = ?locs
           \<and> (\<forall>x \<in> set new. rl_reduction_run x = Some k)"
    apply (rule exI[of _ db'], rule exI[of _ new])
    using res s n by (simp add: common_reduction_run_update_def)
next
  assume "reduction_started integrity t0 db0 r0 m0 = (Inr r, db) \<and> run_process m0 = (True, m)
        \<and> msg_message m = None"
  then show "do_reduction integrity run_process t0 t db0 r0 m0 = reduction_complete integrity t db r m"
    by (simp add: do_reduction_def)
qed

text \<open>
  C2, as the code has it. \<open>reduction_error\<close> has no precondition on the status: on every
  run it sets the status to Error, stamps the finish time, copies the message and the
  logs and saves the run (the store's integrity fault apart), and it never raises the
  illegal-transition fault. Only \<open>reduction_complete\<close> asserts that the run is
  Processing.
\<close>

theorem reduction_error_unguarded:
  "(let r1 = common_reduction_run_update t r Error m in
    if integrity db (RunRow r1)
    then \<exists>i db'. reduction_error integrity t db r m = (Inr (r1\<lparr>run_pk := Some i\<rparr>), db')
           \<and> r1\<lparr>run_pk := Some i\<rparr> \<in> set (reduction_runs db')
           \<and> run_status (r1\<lparr>run_pk := Some i\<rparr>) = Error
           \<and> run_finished (r1\<lparr>run_pk := Some i\<rparr>) = Some t
    else reduction_error integrity t db r m = (Inl IntegrityError, db))
   \<and> fst (reduction_error integrity t db r m) \<noteq> Inl InvalidStateException
   \<and> (run_status r \<noteq> Processing \<longrightarrow>
        reduction_complete integrity t db r m = (Inl InvalidStateException, db))"
proof -
  let ?r1 = "common_reduction_run_update t r Error m"
  have c: "run_status r \<noteq> Processing \<longrightarrow>
        reduction_complete integrity t db r m = (Inl InvalidStateException, db)"
    by (cases "run_status r") (simp_all add: reduction_complete_def)
  show ?thesis
  proof (cases "integrity db (RunRow ?r1)")
    case True
    from save_run_accepted[of integrity db ?r1] True obtain i db' where
      "save_run integrity db ?r1 = (Inr (?r1\<lparr>run_pk := Some i\<rparr>), db')"
      "?r1\<lparr>run_pk := Some i\<rparr> \<in> set (reduction_runs db')"
      by blast
    then show ?thesis using True c
      by (auto simp: reduction_error_def get_error_def Let_def common_reduction_run_update_def)
  next
    case False
    then show ?thesis using c save_run_rejected[of integrity db ?r1]
      by (simp add: reduction_error_def get_error_def Let_def)
  qed
qed

section \<open>The state machine at concrete runs\<close>

text \<open>
  C2, as the claim states it, fails: on a Queued run \<open>reduction_error\<close> raises no
  illegal-transition fault; the run is put in Error and saved.
\<close>

theorem reduction_error_counterexample:
  "run_status (demo_run Queued) \<noteq> Processing
   \<and> fst (reduction_error accept_all 9 (demo_db Queued) (demo_run Queued) demo_message)
       = Inr ((demo_run Queued)\<lparr>run_status := Error, run_finished := Some 9\<rparr>)"
  by (simp add: reduction_error_def save_run_def safe_save_def save_def accept_all_def
        save_row_def demo_db_def demo_run_def demo_message_def get_error_def
        common_reduction_run_update_def)

theorem reduction_error_unguarded_witness:
  "run_status (demo_run Queued) \<noteq> Processing
   \<and> accept_all (demo_db Queued) (RunRow (common_reduction_run_update 9 (demo_run Queued) Error demo_message))
   \<and> (\<exists>i db'. reduction_error accept_all 9 (demo_db Queued) (demo_run Queued) demo_message
          = (Inr ((common_reduction_run_update 9 (demo_run Queued) Error demo_message)\<lparr>run_pk := Some i\<rparr>), db'))
   \<and> reduction_complete accept_all 9 (demo_db Queued) (demo_run Queued) demo_message
       = (Inl InvalidStateException, demo_db Queued)"
  using reduction_error_unguarded[where r = "demo_run Queued" and integrity = accept_all
          and t = 9 and db = "demo_db Queued" and m = demo_message]
  by (auto simp: demo_run_def accept_all_def Let_def)

theorem reduction_complete_transition_witness:
  "run_status (demo_run Queued) \<noteq> Processing
   \<and> reduction_complete accept_all 6 (demo_db Queued) (demo_run Queued) demo_result
       = (Inl InvalidStateException, demo_db Queued)
   \<and> run_status ((demo_run Queued)\<lparr>run_status := Processing, run_started := Some 5\<rparr>) = Processing
   \<and> run_pk ((demo_run Queued)\<lparr>run_status := Processing, run_started := Some 5\<rparr>) = Some 1
   \<and> (\<forall>d x. accept_all d x)
   \<and> (\<exists>db' new.
         reduction_complete accept_all 6 (demo_db Processing)
             ((demo_run Queued)\<lparr>run_status := Processing, run_started := Some 5\<rparr>) (snd (launch_ok demo_message))
           = (Inr (common_reduction_run_update 6
                     ((demo_run Queued)\<lparr>run_status := Processing, run_started := Some 5\<rparr>)
                     Completed (snd (launch_ok demo_message))), db')
         \<and> reduction_locations db' = reduction_locations (demo_db Processing) @ new
         \<and> map rl_file_path new = [''/out/a''])
   \<and> reduction_started accept_all 5 (demo_db Queued) (demo_run Queued) demo_message
       = (Inr ((demo_run Queued)\<lparr>run_status := Processing, run_started := Some 5\<rparr>),
          (demo_db Queued)\<lparr>reduction_runs :=
             [(demo_run Queued)\<lparr>run_status := Processing, run_started := Some 5\<rparr>]\<rparr>)
   \<and> launch_ok demo_message = (True, snd (launch_ok demo_message))
   \<and> msg_message (snd (launch_ok demo_message)) = None
   \<and> do_reduction accept_all launch_ok 5 6 (demo_db Queued) (demo_run Queued) demo_message
       = reduction_complete accept_all 6
           ((demo_db Queued)\<lparr>reduction_runs :=
             [(demo_run Queued)\<lparr>run_status := Processing, run_started := Some 5\<rparr>]\<rparr>)
           ((demo_run Queued)\<lparr>run_status := Processing, run_started := Some 5\<rparr>)
           (snd (launch_ok demo_message))"
proof -
  let ?r = "(demo_run Queued)\<lparr>run_status := Processing, run_started := Some 5\<rparr>"
  let ?db = "(demo_db Queued)\<lparr>reduction_runs := [?r]\<rparr>"
  have h1: "reduction_started accept_all 5 (demo_db Queued) (demo_run Queued) demo_message
              = (Inr ?r, ?db)"
    by (simp add: reduction_started_def save_run_def safe_save_def save_def accept_all_def
          save_row_def demo_db_def demo_run_def get_processing_def)
  have h2: "launch_ok demo_message = (True, snd (launch_ok demo_message))"
    by (simp add: launch_ok_def)
  have h3: "msg_message (snd (launch_ok demo_message)) = None"
    by (simp add: launch_ok_def demo_message_def)
  have h4: "run_status ?r = Processing \<and> run_pk ?r = Some 1 \<and> (\<forall>d x. accept_all d x)"
    by (simp add: demo_run_def accept_all_def)
  have h5: "run_status (demo_run Queued) \<noteq> Processing" by (simp add: demo_run_def)
  have h6: "msg_reduction_data (snd (launch_ok demo_message)) = Some [''/out/a'']"
    by (simp add: launch_ok_def)
  show ?thesis
    using reduction_complete_transition[where r = "demo_run Queued" and integrity = accept_all
            and t = 6 and db = "demo_db Queued" and m = demo_result, THEN conjunct1]
          reduction_complete_transition[where r = ?r and k = 1 and integrity = accept_all
            and t = 6 and db = "demo_db Processing" and m = "snd (launch_ok demo_message)",
            THEN conjunct2, THEN conjunct1]
          reduction_complete_transition[where r = ?r and integrity = accept_all
            and t = 6 and db = ?db and m = "snd (launch_ok demo_message)"
            and t0 = 5 and db0 = "demo_db Queued" and r0 = "demo_run Queued"
            and ?m0.0 = demo_message and run_process = launch_ok,
            THEN conjunct2, THEN conjunct2]
          h1 h2 h3 h4 h5 h6
    by auto
qed

section \<open>Copy on write\<close>

lemma fresh_pk_bound: "x \<in> set rows \<Longrightarrow> pk x = Some i \<Longrightarrow> i < fresh_pk pk rows"
  unfolding fresh_pk_def
  by (induction rows) (auto split: option.splits simp: less_Suc_eq_le max_def)

lemma fresh_pk_fresh: "\<forall>x \<in> set rows. pk x \<noteq> Some (fresh_pk pk rows)"
  using fresh_pk_bound[of _ rows pk "fresh_pk pk rows"] by auto

text \<open>
  The copy-on-write step on its own. When the value, type or help text handed to
  \<open>_update_or_copy_if_changed\<close> for run number \<open>n\<close> differs from a variable whose
  \<open>start_run\<close> is not \<open>n\<close>, one new row is appended under a fresh key, carrying the new
  value, type and help text with \<open>start_run = n\<close>; the table as it was is a prefix of the
  new table.
\<close>

lemma update_or_copy_creates_new_row:
  "var_start_run v \<noteq> Some n \<and> (nv \<noteq> var_value v \<or> nt \<noteq> var_type v \<or> nh \<noteq> var_help_text v) \<longrightarrow>
     update_or_copy_if_changed table v nv nt nh n
       = (v\<lparr>var_pk := Some (fresh_pk var_pk table), var_value := nv, var_type := nt,
            var_help_text := nh, var_start_run := Some n\<rparr>,
          table @ [v\<lparr>var_pk := Some (fresh_pk var_pk table), var_value := nv, var_type := nt,
                     var_help_text := nh, var_start_run := Some n,
                     var_reference_number := None\<rparr>])
     \<and> (\<forall>x \<in> set table. var_pk x \<noteq> Some (fresh_pk var_pk table))"
proof (intro impI conjI)
  assume a: "var_start_run v \<noteq> Some n \<and> (nv \<noteq> var_value v \<or> nt \<noteq> var_type v \<or> nh \<noteq> var_help_text v)"
  have e1: "(if nv \<noteq> var_value v then v\<lparr>var_value := nv\<rparr> else v) = v\<lparr>var_value := nv\<rparr>"
    by simp
  have e2: "(if nt \<noteq> var_type (v\<lparr>var_value := nv\<rparr>) then v\<lparr>var_value := nv, var_type := nt\<rparr>
             else v\<lparr>var_value := nv\<rparr>) = v\<lparr>var_value := nv, var_type := nt\<rparr>"
    by simp
  have e3: "(if nh \<noteq> var_help_text (v\<lparr>var_value := nv, var_type := nt\<rparr>)
             then v\<lparr>var_value := nv, var_type := nt, var_help_text := nh\<rparr>
             else v\<lparr>var_value := nv, var_type := nt\<rparr>)
            = v\<lparr>var_value := nv, var_type := nt, var_help_text := nh\<rparr>"
    by simp
  show "update_or_copy_if_changed table v nv nt nh n
       = (v\<lparr>var_pk := Some (fresh_pk var_pk table), var_value := nv, var_type := nt,
            var_help_text := nh, var_start_run := Some n\<rparr>,
          table @ [v\<lparr>var_pk := Some (fresh_pk var_pk table), var_value := nv, var_type := nt,
                     var_help_text := nh, var_start_run := Some n,
                     var_reference_number := None\<rparr>])"
    using a unfolding update_or_copy_if_changed_def Let_def e1 e2 e3
    by (simp add: save_variable_def save_row_def Let_def)
next
  show "\<forall>x \<in> set table. var_pk x \<noteq> Some (fresh_pk var_pk table)"
    by (rule fresh_pk_fresh)
qed

lemma update_or_copy_creates_new_row_at_run_10:
  "var_start_run (variable_x 1 ''1'' None (Some 5) True) \<noteq> Some 10
   \<and> ''2'' \<noteq> var_value (variable_x 1 ''1'' None (Some 5) True)
   \<and> update_or_copy_if_changed [variable_x 1 ''1'' None (Some 5) True]
        (variable_x 1 ''1'' None (Some 5) True) ''2'' ''number'' '''' 10
      = (variable_x 2 ''2'' None (Some 10) True,
         [variable_x 1 ''1'' None (Some 5) True, variable_x 2 ''2'' None (Some 10) True])"
  using update_or_copy_creates_new_row[where v = "variable_x 1 ''1'' None (Some 5) True"
          and n = 10 and nv = "''2''" and nt = "''number''" and nh = "''''"
          and table = "[variable_x 1 ''1'' None (Some 5) True]"]
  by (simp add: variable_x_def fresh_pk_def)

section \<open>Faults of the code at concrete inputs\<close>

text \<open>
  C5. With no script text for the instrument, \<open>data_ready\<close> calls \<open>reduction_error\<close>
  with the message alone: the call raises \<open>TypeError\<close>, not the invalid-state fault, and
  no run is stored, in Error or otherwise.
\<close>

theorem data_ready_without_script:
  "no_script ''DEMO'' = None
   \<and> fst (data_ready accept_all seven_digits no_script (\<lambda>r m. Inr m) (\<lambda>m. True) launch_ok 5 6
             empty_db demo_message) = Inl TypeError
   \<and> reduction_runs (snd (data_ready accept_all seven_digits no_script (\<lambda>r m. Inr m) (\<lambda>m. True)
                             launch_ok 5 6 empty_db demo_message)) = []"
  by code_simp

text \<open>
  C6. The resolver copies a tracking row on the first change only. A stored tracking row
  of value 1 from run 5 and a script default of 2 at run 10: \<open>find_or_make_variables\<close>
  appends the row of value 2 with \<open>start_run = 10\<close> and leaves the old row as it was.
  On the table so left, a script default of 3 at run 11 differs from both stored rows and
  11 from both their \<open>start_run\<close>, yet no row with \<open>start_run = 11\<close> is created: the
  look-up for the reference \<open>None\<close> matches both run-range rows and the resolver raises
  \<open>MultipleObjectsReturned\<close>, through \<open>create_run_variables\<close> as well.
\<close>

theorem resolver_second_change_fails:
  "find_or_make_variables str_int number_type (in_scope_upto 10)
     [variable_x 1 ''1'' None (Some 5) True] 10 1 (script_x 2) None True False
   = (Inr [variable_x 2 ''2'' None (Some 10) True],
      [variable_x 1 ''1'' None (Some 5) True, variable_x 2 ''2'' None (Some 10) True])
   \<and> var_tracks_script (variable_x 1 ''1'' None (Some 5) True)
   \<and> var_tracks_script (variable_x 2 ''2'' None (Some 10) True)
   \<and> find_or_make_variables str_int number_type (in_scope_upto 11)
       [variable_x 1 ''1'' None (Some 5) True, variable_x 2 ''2'' None (Some 10) True]
       11 1 (script_x 3) None True False
     = (Inl MultipleObjectsReturned,
        [variable_x 1 ''1'' None (Some 5) True, variable_x 2 ''2'' None (Some 10) True])
   \<and> create_run_variables str_int number_type keep_value snapshot_of [[(''x'', 3)], []]
       [variable_x 1 ''1'' None (Some 5) True, variable_x 2 ''2'' None (Some 10) True]
       demo_module later_scope []
     = (Inl MultipleObjectsReturned,
        [[(''x'', 3)], [], [(''x'', 3)], []],
        [variable_x 1 ''1'' None (Some 5) True, variable_x 2 ''2'' None (Some 10) True])"
  by code_simp

text \<open>
  C7. For a run of experiment 1234567 with run number 10, with an experiment-scoped row
  of value 7 and a run-range row of value 1 starting at run 1 stored for the variable,
  \<open>create_run_variables\<close> selects the run-range row: the resolver is called without the
  experiment reference, and the look-up for the reference \<open>None\<close> finds the run-range row.
\<close>

theorem create_run_variables_prefers_run_range:
  "create_run_variables str_int number_type keep_value snapshot_of [[(''x'', 1)], []]
     [variable_x 1 ''7'' (Some 1234567) None False, variable_x 2 ''1'' None (Some 1) True]
     demo_module demo_scope []
   = (Inr [variable_x 2 ''1'' None (Some 1) True],
      [[(''x'', 1)], [], [(''x'', 1)], []],
      [variable_x 1 ''7'' (Some 1234567) None False, variable_x 2 ''1'' None (Some 1) True])"
  by code_simp

text \<open>
  C9. A stored tracking row of value 1 from run 5, a script default of 2, run number 10:
  the first call copies the row for run 10; the second call, with the same inputs on the
  table the first one left, raises \<open>MultipleObjectsReturned\<close>, since the look-up for the
  reference \<open>None\<close> now matches both run-range rows.
\<close>

theorem find_or_make_variables_second_call_fails:
  "find_or_make_variables str_int number_type in_scope [variable_x 1 ''1'' None (Some 5) True]
     10 1 (script_x 2) None True False
   = (Inr [variable_x 2 ''2'' None (Some 10) True],
      [variable_x 1 ''1'' None (Some 5) True, variable_x 2 ''2'' None (Some 10) True])
   \<and> find_or_make_variables str_int number_type in_scope
       [variable_x 1 ''1'' None (Some 5) True, variable_x 2 ''2'' None (Some 10) True]
       10 1 (script_x 2) None True False
     = (Inl MultipleObjectsReturned,
        [variable_x 1 ''1'' None (Some 5) True, variable_x 2 ''2'' None (Some 10) True])"
  by code_simp

text \<open>
  C8, as the claim states it, fails: an override for a name unknown to the script defaults
  is not dropped silently, the merge raises \<open>KeyError\<close>.
\<close>

theorem merge_arguments_unknown_name:
  "merge_arguments number_type keep_value [(''standard_vars'', [(''y'', 3)])] [[(''x'', 1)], []]
     demo_module
   = (Inl (KeyError ''y''), [[(''x'', 1)], [], [(''x'', 1)], []])"
  by code_simp

text \<open>
  A fault inside \<open>create_run_variables\<close> undoes the rows written earlier in the call:
  the row created for the new variable \<open>a\<close> is gone when the look-up for \<open>x\<close> raises.
\<close>

lemma create_run_variables_rolls_back:
  "map var_name (snd (find_or_make_variables str_int number_type (in_scope_upto 11)
        [variable_x 1 ''1'' None (Some 5) True, variable_x 2 ''2'' None (Some 10) True]
        11 1 \<lparr>standard_vars = [(''a'', 1), (''x'', 3)], advanced_vars = [],
               variable_help = []\<rparr> None True False))
   = [''x'', ''x'', ''a'']
   \<and> create_run_variables str_int number_type keep_value snapshot_of
       [[(''a'', 1), (''x'', 3)], []]
       [variable_x 1 ''1'' None (Some 5) True, variable_x 2 ''2'' None (Some 10) True]
       demo_module later_scope []
     = (Inl MultipleObjectsReturned,
        [[(''a'', 1), (''x'', 3)], [], [(''a'', 1), (''x'', 3)], []],
        [variable_x 1 ''1'' None (Some 5) True, variable_x 2 ''2'' None (Some 10) True])"
  by code_simp

section \<open>Merging override arguments\<close>

lemma deepcopy_getattr_prefix:
  "deepcopy_getattr h attr = (a', h') \<Longrightarrow>
     take (length h) h' = h \<and> length h \<le> a' \<and> length h' = Suc a'
     \<and> h' ! a' = (case attr of None \<Rightarrow> [] | Some a \<Rightarrow> (if a < length h then h ! a else h' ! a'))"
  by (auto simp: deepcopy_getattr_def deepcopy_def nth_append split: option.splits)

lemma set_with_correct_type_prefix:
  assumes "set_with_correct_type gts conv args h ra dict_name = (e, h')"
    and "\<forall>a \<in> snd ` set ra. n \<le> a"
  shows "take n h' = take n h \<and> length h' = length h"
proof (cases "map_of args dict_name")
  case None
  with assms show ?thesis by (simp add: set_with_correct_type_def)
next
  case (Some overrides)
  show ?thesis
  proof (cases "map_of ra dict_name")
    case None
    with assms Some show ?thesis by (simp add: set_with_correct_type_def)
  next
    case (Some a)
    then have "(dict_name, a) \<in> set ra" by (rule map_of_SomeD)
    with assms(2) have "n \<le> a" by force
    with assms(1) \<open>map_of args dict_name = Some overrides\<close> Some show ?thesis
      by (auto simp: set_with_correct_type_def split: prod.splits)
  qed
qed

text \<open>
  C10. \<open>merge_arguments\<close> writes only to the copies it makes: every dictionary object
  that existed before the call, the module's \<open>standard_vars\<close> and \<open>advanced_vars\<close>
  among them, has the same content after it, whether the merge returns or raises.
\<close>

theorem merge_arguments_keeps_module:
  "take (length h) (snd (merge_arguments gts conv args h m)) = h
   \<and> (mod_standard_vars m = Some a \<and> a < length h \<longrightarrow>
        snd (merge_arguments gts conv args h m) ! a = h ! a)
   \<and> (mod_advanced_vars m = Some b \<and> b < length h \<longrightarrow>
        snd (merge_arguments gts conv args h m) ! b = h ! b)"
proof -
  obtain a1 h1 where d1: "deepcopy_getattr h (mod_standard_vars m) = (a1, h1)"
    by (cases "deepcopy_getattr h (mod_standard_vars m)")
  obtain a2 h2 where d2: "deepcopy_getattr h1 (mod_advanced_vars m) = (a2, h2)"
    by (cases "deepcopy_getattr h1 (mod_advanced_vars m)")
  let ?ra = "[(''standard_vars'', a1), (''advanced_vars'', a2)]"
  obtain e3 h3 where s3: "set_with_correct_type gts conv args h2 ?ra ''standard_vars'' = (e3, h3)"
    by (cases "set_with_correct_type gts conv args h2 ?ra ''standard_vars''")
  obtain e4 h4 where s4: "set_with_correct_type gts conv args h3 ?ra ''advanced_vars'' = (e4, h4)"
    by (cases "set_with_correct_type gts conv args h3 ?ra ''advanced_vars''")
  from deepcopy_getattr_prefix[OF d1] have p1: "take (length h) h1 = h" "length h \<le> a1"
    "length h1 = Suc a1" by auto
  from deepcopy_getattr_prefix[OF d2] have p2: "take (length h1) h2 = h1" "length h1 \<le> a2" by auto
  have bound: "\<forall>a \<in> snd ` set ?ra. length h \<le> a" using p1 p2 by auto
  from set_with_correct_type_prefix[OF s3 bound] have p3: "take (length h) h3 = take (length h) h2"
    by simp
  from set_with_correct_type_prefix[OF s4 bound] have p4: "take (length h) h4 = take (length h) h3"
    by simp
  have "take (length h) h2 = take (length h) (take (length h1) h2)"
    using p1 by (simp add: min_def)
  also have "\<dots> = take (length h) h1" by (simp only: p2(1))
  also have "\<dots> = h" by (rule p1(1))
  finally have t2: "take (length h) h2 = h" .
  have res: "snd (merge_arguments gts conv args h m) = h3 \<or> snd (merge_arguments gts conv args h m) = h4"
    using d1 d2 s3 s4 by (auto simp: merge_arguments_def Let_def split: option.splits)
  have main: "take (length h) (snd (merge_arguments gts conv args h m)) = h"
    using res p3 p4 t2 by auto
  have "\<And>i. i < length h \<Longrightarrow> snd (merge_arguments gts conv args h m) ! i = h ! i"
    by (metis main nth_take)
  with main show ?thesis by blast
qed

theorem merge_arguments_keeps_module_witness:
  "mod_standard_vars demo_module = Some 0 \<and> 0 < length [[(''x'', 1::int)], []]
   \<and> mod_advanced_vars demo_module = Some 1 \<and> 1 < length [[(''x'', 1::int)], []]
   \<and> snd (merge_arguments number_type keep_value [(''standard_vars'', [(''x'', 3)])]
             [[(''x'', 1)], []] demo_module) ! 0 = [(''x'', 1)]
   \<and> snd (merge_arguments number_type keep_value [(''standard_vars'', [(''x'', 3)])]
             [[(''x'', 1)], []] demo_module) ! 1 = []"
  using merge_arguments_keeps_module[where h = "[[(''x'', 1::int)], []]" and m = demo_module
          and a = 0 and b = 1 and gts = number_type and conv = keep_value
          and args = "[(''standard_vars'', [(''x'', 3)])]"]
  by (simp add: demo_module_def)

lemma dict_set_keys_present:
  "k \<in> fst ` set d \<Longrightarrow> map fst (dict_set k v d) = map fst d"
  by (induction d) force+

lemma dict_set_present:
  "distinct (map fst d) \<Longrightarrow> k \<in> fst ` set d \<Longrightarrow>
     dict_set k x d = map (\<lambda>(n, c). (n, if n = k then x else c)) d"
proof (induction d)
  case Nil
  then show ?case by simp
next
  case (Cons p d)
  obtain k' v' where p: "p = (k', v')" by (cases p)
  show ?case
  proof (cases "k = k'")
    case True
    with Cons.prems p have "k \<notin> fst ` set d" by auto
    then have "map (\<lambda>(n, c). (n, if n = k then x else c)) d = d"
      by (induction d) auto
    with True p show ?thesis by simp
  next
    case False
    with Cons p show ?thesis by auto
  qed
qed

lemma set_items_known:
  assumes "distinct (map fst os)" and "distinct (map fst d)" and "fst ` set os \<subseteq> fst ` set d"
  shows "set_items gts conv os d
           = (None, map (\<lambda>(n, c). (n, case map_of os n of None \<Rightarrow> c | Some v \<Rightarrow> conv v (gts c))) d)"
  using assms
proof (induction os arbitrary: d)
  case Nil
  then show ?case by simp
next
  case (Cons p rest)
  obtain name val where p: "p = (name, val)" by (cases p)
  from Cons.prems p have mem: "name \<in> fst ` set d" by auto
  then obtain cur where cur: "map_of d name = Some cur"
    by (metis map_of_eq_None_iff not_Some_eq)
  let ?x = "conv val (gts cur)"
  let ?d' = "dict_set name ?x d"
  have d': "?d' = map (\<lambda>(n, c). (n, if n = name then ?x else c)) d"
    using Cons.prems(2) mem by (rule dict_set_present)
  have keys: "map fst ?d' = map fst d" using mem by (rule dict_set_keys_present)
  have fresh: "map_of rest name = None"
    using Cons.prems(1) p by (simp add: map_of_eq_None_iff)
  have ih: "set_items gts conv rest ?d'
              = (None, map (\<lambda>(n, c). (n, case map_of rest n of None \<Rightarrow> c
                                            | Some v \<Rightarrow> conv v (gts c))) ?d')"
  proof (rule Cons.IH)
    show "distinct (map fst rest)" using Cons.prems(1) by simp
    show "distinct (map fst ?d')" using keys Cons.prems(2) by simp
    have "fst ` set ?d' = fst ` set d" using keys by (metis set_map)
    then show "fst ` set rest \<subseteq> fst ` set ?d'" using Cons.prems(3) by auto
  qed
  have pointwise: "map (\<lambda>(n, c). (n, case map_of rest n of None \<Rightarrow> c | Some v \<Rightarrow> conv v (gts c))) ?d'
                   = map (\<lambda>(n, c). (n, case map_of (p # rest) n of None \<Rightarrow> c
                                           | Some v \<Rightarrow> conv v (gts c))) d"
    unfolding d' map_map
  proof (rule map_cong[OF refl])
    fix e assume e: "e \<in> set d"
    obtain n c where nc: "e = (n, c)" by (cases e)
    show "((\<lambda>(n, c). (n, case map_of rest n of None \<Rightarrow> c | Some v \<Rightarrow> conv v (gts c)))
             \<circ> (\<lambda>(n, c). (n, if n = name then ?x else c))) e
          = (\<lambda>(n, c). (n, case map_of (p # rest) n of None \<Rightarrow> c | Some v \<Rightarrow> conv v (gts c))) e"
    proof (cases "n = name")
      case True
      with e nc Cons.prems(2) cur have "c = cur" by (metis map_of_is_SomeI option.inject)
      with True nc p fresh show ?thesis by simp
    next
      case False
      with nc p show ?thesis by simp
    qed
  qed
  show ?case
    using p cur ih pointwise by (simp add: Let_def)
qed

lemma set_items_unknown:
  assumes "\<not> fst ` set os \<subseteq> fst ` set d"
  shows "\<exists>n d'. set_items gts conv os d = (Some (KeyError n), d')
                 \<and> n \<in> fst ` set os \<and> n \<notin> fst ` set d"
  using assms
proof (induction os arbitrary: d)
  case Nil
  then show ?case by simp
next
  case (Cons p rest)
  obtain name val where p: "p = (name, val)" by (cases p)
  show ?case
  proof (cases "map_of d name")
    case None
    then have "name \<notin> fst ` set d" by (simp add: map_of_eq_None_iff)
    with None p show ?thesis by auto
  next
    case (Some cur)
    then have mem: "name \<in> fst ` set d" by (metis map_of_eq_None_iff option.distinct(1))
    let ?d' = "dict_set name (conv val (gts cur)) d"
    have "map fst ?d' = map fst d" using mem by (rule dict_set_keys_present)
    then have keys: "fst ` set ?d' = fst ` set d" by (metis set_map)
    with Cons.prems p mem have "\<not> fst ` set rest \<subseteq> fst ` set ?d'" by auto
    from Cons.IH[OF this] keys obtain n d'' where
      "set_items gts conv rest ?d' = (Some (KeyError n), d'')" "n \<in> fst ` set rest"
      "n \<notin> fst ` set d" by auto
    with p Some show ?thesis by (auto simp: Let_def)
  qed
qed

lemma set_with_correct_type_section:
  assumes "map_of ra dict_name = Some a'"
  shows "set_with_correct_type gts conv args h ra dict_name
           = (let (e, d) = set_items gts conv
                             (case map_of args dict_name of None \<Rightarrow> [] | Some x \<Rightarrow> x) (h ! a')
              in (e, h[a' := d]))"
  using assms by (cases "map_of args dict_name") (simp_all add: set_with_correct_type_def)

text \<open>
  C8, as the code has it. Each override value is converted to the type of the value that
  the script defaults hold under its name, and takes that name's place; names without an
  override keep their default. An override for a name that the defaults of its section
  lack is not dropped: the merge raises \<open>KeyError\<close> for such a name and returns no
  arguments. An override section that the message lacks is skipped.
\<close>

theorem merge_arguments_coerces:
  assumes "mod_standard_vars m = Some a" and "a < length h"
    and "mod_advanced_vars m = Some b" and "b < length h"
    and "distinct (map fst (h ! a))" and "distinct (map fst (h ! b))"
    and "o_std = (case map_of args ''standard_vars'' of None \<Rightarrow> [] | Some x \<Rightarrow> x)"
    and "o_adv = (case map_of args ''advanced_vars'' of None \<Rightarrow> [] | Some x \<Rightarrow> x)"
    and "distinct (map fst o_std)" and "distinct (map fst o_adv)"
  shows "if fst ` set o_std \<subseteq> fst ` set (h ! a) \<and> fst ` set o_adv \<subseteq> fst ` set (h ! b)
         then \<exists>ra h'. merge_arguments gts conv args h m = (Inr ra, h')
                \<and> h' ! ra_standard_vars ra
                    = map (\<lambda>(n, c). (n, case map_of o_std n of None \<Rightarrow> c
                                          | Some v \<Rightarrow> conv v (gts c))) (h ! a)
                \<and> h' ! ra_advanced_vars ra
                    = map (\<lambda>(n, c). (n, case map_of o_adv n of None \<Rightarrow> c
                                          | Some v \<Rightarrow> conv v (gts c))) (h ! b)
         else \<exists>n h'. merge_arguments gts conv args h m = (Inl (KeyError n), h')
                \<and> n \<in> (fst ` set o_std - fst ` set (h ! a)) \<union> (fst ` set o_adv - fst ` set (h ! b))"
proof -
  let ?std = "h ! a" and ?adv = "h ! b"
  let ?a1 = "length h" and ?a2 = "Suc (length h)"
  let ?h2 = "h @ [?std, ?adv]"
  let ?ra = "[(''standard_vars'', ?a1), (''advanced_vars'', ?a2)]"
  have d1: "deepcopy_getattr h (mod_standard_vars m) = (?a1, h @ [?std])"
    using assms(1) by (simp add: deepcopy_getattr_def deepcopy_def)
  have d2: "deepcopy_getattr (h @ [?std]) (mod_advanced_vars m) = (?a2, ?h2)"
    using assms(3,4) by (simp add: deepcopy_getattr_def deepcopy_def nth_append)
  have s1: "set_with_correct_type gts conv args ?h2 ?ra ''standard_vars''
              = (let (e, d) = set_items gts conv o_std ?std in (e, ?h2[?a1 := d]))"
    using set_with_correct_type_section[of ?ra "''standard_vars''" ?a1 gts conv args ?h2] assms(7)
    by (simp add: nth_append)
  have s2: "\<And>d. set_with_correct_type gts conv args (?h2[?a1 := d]) ?ra ''advanced_vars''
              = (let (e, d') = set_items gts conv o_adv ?adv in (e, ?h2[?a1 := d, ?a2 := d']))"
    using set_with_correct_type_section[of ?ra "''advanced_vars''" ?a2 gts conv args] assms(8)
    by (simp add: nth_append)
  show ?thesis
  proof (cases "fst ` set o_std \<subseteq> fst ` set ?std")
    case False
    from set_items_unknown[OF False, of gts conv] obtain n d' where
      u: "set_items gts conv o_std ?std = (Some (KeyError n), d')" "n \<in> fst ` set o_std"
         "n \<notin> fst ` set ?std" by blast
    have "merge_arguments gts conv args h m = (Inl (KeyError n), ?h2[?a1 := d'])"
      using d1 d2 s1 u(1) by (simp add: merge_arguments_def Let_def)
    with False u show ?thesis by auto
  next
    case True
    let ?d1 = "map (\<lambda>(n, c). (n, case map_of o_std n of None \<Rightarrow> c | Some v \<Rightarrow> conv v (gts c))) ?std"
    have k1: "set_items gts conv o_std ?std = (None, ?d1)"
      using assms(9) assms(5) True by (rule set_items_known)
    show ?thesis
    proof (cases "fst ` set o_adv \<subseteq> fst ` set ?adv")
      case False
      from set_items_unknown[OF False, of gts conv] obtain n d' where
        u: "set_items gts conv o_adv ?adv = (Some (KeyError n), d')" "n \<in> fst ` set o_adv"
           "n \<notin> fst ` set ?adv" by blast
      have "merge_arguments gts conv args h m = (Inl (KeyError n), ?h2[?a1 := ?d1, ?a2 := d'])"
        using d1 d2 s1 k1 s2[of ?d1] u(1) by (simp add: merge_arguments_def Let_def)
      with False u show ?thesis by auto
    next
      case adv: True
      let ?d2 = "map (\<lambda>(n, c). (n, case map_of o_adv n of None \<Rightarrow> c | Some v \<Rightarrow> conv v (gts c))) ?adv"
      have k2: "set_items gts conv o_adv ?adv = (None, ?d2)"
        using assms(10) assms(6) adv by (rule set_items_known)
      have "merge_arguments gts conv args h m
              = (Inr \<lparr>ra_standard_vars = ?a1, ra_advanced_vars = ?a2,
                      ra_variable_help = (case mod_variable_help m of None \<Rightarrow> [] | Some x \<Rightarrow> x)\<rparr>,
                 ?h2[?a1 := ?d1, ?a2 := ?d2])"
        using d1 d2 s1 k1 s2[of ?d1] k2 by (simp add: merge_arguments_def Let_def)
      moreover have "?h2[?a1 := ?d1, ?a2 := ?d2] ! ?a1 = ?d1" by (simp add: nth_append)
      moreover have "?h2[?a1 := ?d1, ?a2 := ?d2] ! ?a2 = ?d2" by (simp add: nth_append)
      ultimately show ?thesis using True adv by simp
    qed
  qed
qed

theorem merge_arguments_coerces_witness:
  "(\<exists>ra h'. merge_arguments number_type keep_value [(''standard_vars'', [(''x'', 3)])]
              [[(''x'', 1)], []] demo_module = (Inr ra, h')
     \<and> h' ! ra_standard_vars ra = [(''x'', keep_value 3 (number_type 1))]
     \<and> h' ! ra_advanced_vars ra = [])
   \<and> (\<exists>h'. merge_arguments number_type keep_value [(''standard_vars'', [(''y'', 3)])]
              [[(''x'', 1)], []] demo_module = (Inl (KeyError ''y''), h'))"
  using merge_arguments_coerces[where m = demo_module and a = 0 and b = 1
          and h = "[[(''x'', 1::int)], []]" and args = "[(''standard_vars'', [(''x'', 3)])]"
          and o_std = "[(''x'', 3)]" and o_adv = "[]" and gts = number_type and conv = keep_value]
        merge_arguments_coerces[where m = demo_module and a = 0 and b = 1
          and h = "[[(''x'', 1::int)], []]" and args = "[(''standard_vars'', [(''y'', 3)])]"
          and o_std = "[(''y'', 3)]" and o_adv = "[]" and gts = number_type and conv = keep_value]
  by (simp add: demo_module_def)

section \<open>Run versions\<close>

lemma scope_versions_ident:
  "scope_versions db rn e
     = map (\<lambda>(p, n, e', v). v) (filter (\<lambda>(p, n, e', v). n = rn \<and> e' = e) (map run_ident (reduction_runs db)))"
  by (simp add: scope_versions_def filter_map comp_def run_ident_def)

lemma same_runs_scope: "same_runs db db' \<Longrightarrow> scope_versions db' rn e = scope_versions db rn e"
  by (simp add: scope_versions_ident same_runs_def)

lemma same_runs_refl: "same_runs db db"
  by (simp add: same_runs_def)

lemma same_runs_trans: "same_runs db db1 \<Longrightarrow> same_runs db1 db2 \<Longrightarrow> same_runs db db2"
  by (simp add: same_runs_def)

lemma owns_same: "owns db r \<Longrightarrow> same_runs db db' \<Longrightarrow> run_ident r' = run_ident r \<Longrightarrow> owns db' r'"
  by (simp add: owns_def same_runs_def run_ident_def)

lemma fst_run_ident: "fst (run_ident r) = run_pk r"
  by (simp add: run_ident_def)

lemma owns_key: "owns db r \<Longrightarrow> \<exists>p. run_pk r = Some p"
  unfolding owns_def by blast

lemma owns_stored: "owns db r \<Longrightarrow> \<exists>x \<in> set (reduction_runs db). run_ident x = run_ident r"
  unfolding owns_def by auto

lemma owns_rows:
  "owns db r \<Longrightarrow> x \<in> set (reduction_runs db) \<Longrightarrow> run_pk x = run_pk r \<Longrightarrow> run_ident x = run_ident r"
  unfolding owns_def using fst_run_ident[of x] by auto

lemma save_run_owned:
  assumes "owns db r" and "run_ident r1 = run_ident r" and "save_run integrity db r1 = (res, db')"
  shows "same_runs db db' \<and> (\<forall>r'. res = Inr r' \<longrightarrow> r' = r1)"
proof (cases "integrity db (RunRow r1)")
  case False
  with assms(3) show ?thesis by (auto simp: save_run_def safe_save_def save_def same_runs_refl)
next
  case True
  have pk: "run_pk r1 = run_pk r"
    using arg_cong[OF assms(2), of fst] by (simp only: fst_run_ident)
  from owns_key[OF assms(1)] pk obtain p where p: "run_pk r1 = Some p" by auto
  from owns_stored[OF assms(1)] obtain x where x: "x \<in> set (reduction_runs db)"
    "run_ident x = run_ident r" by blast
  have "run_pk x = Some p"
    using arg_cong[OF x(2), of fst] pk p by (simp only: fst_run_ident)
  with x(1) have ex: "list_ex (\<lambda>x. run_pk x = Some p) (reduction_runs db)"
    unfolding list_ex_iff by blast
  have all: "\<And>y. y \<in> set (reduction_runs db) \<Longrightarrow> run_pk y = Some p \<Longrightarrow> run_ident y = run_ident r1"
    using owns_rows[OF assms(1)] pk p assms(2) by simp
  have m: "map run_ident (map (\<lambda>x. if run_pk x = Some p then r1 else x) (reduction_runs db))
           = map run_ident (reduction_runs db)"
    unfolding map_map by (rule map_cong[OF refl]) (simp add: all)
  have unch: "r1\<lparr>run_pk := Some p\<rparr> = r1" using p by simp
  have w: "write_row db (RunRow r1)
             = (Inr p, db\<lparr>reduction_runs := map (\<lambda>x. if run_pk x = Some p then r1 else x)
                                               (reduction_runs db)\<rparr>)"
    using p ex by (simp add: save_row_def)
  have "save_run integrity db r1
          = (Inr r1, db\<lparr>reduction_runs := map (\<lambda>x. if run_pk x = Some p then r1 else x)
                                              (reduction_runs db)\<rparr>)"
    using True w unch by (simp add: save_run_def safe_save_def save_def)
  with assms(3) m show ?thesis by (auto simp: same_runs_def)
qed

lemma safe_save_location_same:
  "safe_save integrity db (ReductionLocationRow x) = (res, db') \<Longrightarrow> same_runs db db'"
  by (auto simp: safe_save_def save_def same_runs_def Let_def
           split: if_splits prod.splits sum.splits error.splits)

lemma safe_save_data_location_same:
  "safe_save integrity db (DataLocationRow x) = (res, db') \<Longrightarrow> same_runs db db'"
  by (auto simp: safe_save_def save_def same_runs_def Let_def
           split: if_splits prod.splits sum.splits error.splits)

lemma save_reduction_locations_same:
  "save_reduction_locations integrity db r locs = (res, db') \<Longrightarrow> same_runs db db'"
proof (induction locs arbitrary: db)
  case Nil
  then show ?case by (simp add: same_runs_refl)
next
  case (Cons l rest)
  let ?row = "ReductionLocationRow \<lparr>rl_pk = None, rl_file_path = l, rl_reduction_run = run_pk r\<rparr>"
  obtain e db1 where s: "safe_save integrity db ?row = (e, db1)"
    by (cases "safe_save integrity db ?row")
  from safe_save_location_same[OF s] have a: "same_runs db db1" .
  show ?case
  proof (cases e)
    case (Inl err)
    with Cons.prems s a show ?thesis by simp
  next
    case (Inr i)
    with Cons.prems s have "save_reduction_locations integrity db1 r rest = (res, db')" by simp
    from Cons.IH[OF this] a show ?thesis by (rule same_runs_trans[rotated])
  qed
qed

lemma reduction_started_owned:
  assumes "owns db r" and "reduction_started integrity t db r m = (res, db')"
  shows "same_runs db db' \<and> (\<forall>r'. res = Inr r' \<longrightarrow> run_ident r' = run_ident r)"
proof (cases "status_value (run_status r) \<notin> set [''e'', ''q'']")
  case True
  with assms(2) show ?thesis by (auto simp: reduction_started_def same_runs_refl)
next
  case False
  let ?r1 = "r\<lparr>run_status := get_processing, run_started := Some t\<rparr>"
  have i: "run_ident ?r1 = run_ident r" by (simp add: run_ident_def)
  from False assms(2) have "save_run integrity db ?r1 = (res, db')"
    by (simp add: reduction_started_def)
  from save_run_owned[OF assms(1) i this] i show ?thesis by auto
qed

lemma finalize_owned:
  assumes "owns db r"
    and "save_run integrity db (common_reduction_run_update t r st m) = (res, db')"
  shows "same_runs db db' \<and> (\<forall>r'. res = Inr r' \<longrightarrow> run_ident r' = run_ident r)"
proof -
  have i: "run_ident (common_reduction_run_update t r st m) = run_ident r"
    by (simp add: run_ident_def common_reduction_run_update_def)
  from save_run_owned[OF assms(1) i assms(2)] i show ?thesis by auto
qed

lemma reduction_complete_owned:
  assumes "owns db r" and "reduction_complete integrity t db r m = (res, db')"
  shows "same_runs db db' \<and> (\<forall>r'. res = Inr r' \<longrightarrow> run_ident r' = run_ident r)"
proof (cases "status_value (run_status r) = ''p''")
  case False
  with assms(2) show ?thesis by (auto simp: reduction_complete_def same_runs_refl)
next
  case True
  let ?r1 = "common_reduction_run_update t r get_completed m"
  let ?loop = "case msg_reduction_data m of None \<Rightarrow> (None, db)
               | Some locations \<Rightarrow> save_reduction_locations integrity db ?r1 locations"
  obtain e db1 where l: "?loop = (e, db1)" by (cases ?loop)
  have a: "same_runs db db1"
    using l save_reduction_locations_same[of integrity db ?r1 _ e db1]
    by (cases "msg_reduction_data m") (auto simp: same_runs_refl)
  show ?thesis
  proof (cases e)
    case (Some err)
    with True l assms(2) a show ?thesis by (auto simp: reduction_complete_def Let_def)
  next
    case None
    with True l assms(2) have s: "save_run integrity db1 ?r1 = (res, db')"
      by (simp add: reduction_complete_def Let_def)
    have o: "owns db1 r" using assms(1) a by (rule owns_same) simp
    from finalize_owned[OF o s] a show ?thesis by (auto intro: same_runs_trans)
  qed
qed

lemma reduction_error_owned:
  assumes "owns db r" and "reduction_error integrity t db r m = (res, db')"
  shows "same_runs db db' \<and> (\<forall>r'. res = Inr r' \<longrightarrow> run_ident r' = run_ident r)"
  using finalize_owned[OF assms(1)] assms(2) by (simp add: reduction_error_def)

lemma reduction_skipped_owned:
  assumes "owns db r" and "reduction_skipped integrity t db r m = (res, db')"
  shows "same_runs db db' \<and> (\<forall>r'. res = Inr r' \<longrightarrow> run_ident r' = run_ident r)"
  using finalize_owned[OF assms(1)] assms(2) by (simp add: reduction_skipped_def)

lemma do_reduction_owned:
  assumes "owns db r" and "do_reduction integrity run_process t1 t2 db r m = (res, db')"
  shows "same_runs db db'"
proof -
  obtain e1 db1 where s: "reduction_started integrity t1 db r m = (e1, db1)"
    by (cases "reduction_started integrity t1 db r m")
  from reduction_started_owned[OF assms(1) s]
  have a: "same_runs db db1" and b: "\<forall>r'. e1 = Inr r' \<longrightarrow> run_ident r' = run_ident r" by auto
  show ?thesis
  proof (cases e1)
    case (Inl err)
    with s assms(2) a show ?thesis by (simp add: do_reduction_def)
  next
    case (Inr r1)
    with b have i: "run_ident r1 = run_ident r" by simp
    have o: "owns db1 r1" using assms(1) a i by (rule owns_same)
    obtain fin m' where p: "run_process m = (fin, m')" by (cases "run_process m")
    show ?thesis
    proof (cases fin)
      case False
      with Inr s p assms(2) a show ?thesis by (simp add: do_reduction_def)
    next
      case True
      show ?thesis
      proof (cases "msg_message m' \<noteq> None")
        case True
        with \<open>fin\<close> Inr s p assms(2) have "reduction_error integrity t2 db1 r1 m' = (res, db')"
          by (simp add: do_reduction_def)
        from reduction_error_owned[OF o this] a show ?thesis by (auto intro: same_runs_trans)
      next
        case False
        with \<open>fin\<close> Inr s p assms(2) have "reduction_complete integrity t2 db1 r1 m' = (res, db')"
          by (simp add: do_reduction_def)
        from reduction_complete_owned[OF o this] a show ?thesis by (auto intro: same_runs_trans)
      qed
    qed
  qed
qed

lemma send_message_onwards_owned:
  assumes "owns db r"
    and "send_message_onwards integrity validate run_process t1 t2 db r m inst = (res, db')"
  shows "same_runs db db'"
  using assms reduction_skipped_owned[OF assms(1), of integrity t1 m res db']
        do_reduction_owned[OF assms(1), of integrity run_process t1 t2 m res db']
  by (auto simp: send_message_onwards_def split: if_splits)

lemma get_instrument_same:
  "get_instrument db n = (x, db1) \<Longrightarrow>
     reduction_runs db1 = reduction_runs db \<and> experiments db1 = experiments db"
  by (auto simp: get_instrument_def Let_def split: option.splits prod.splits)

lemma get_and_activate_db_inst_same:
  assumes "get_and_activate_db_inst integrity db n = (res, db1)"
  shows "reduction_runs db1 = reduction_runs db \<and> experiments db1 = experiments db
         \<and> ((\<forall>d x. integrity d x) \<longrightarrow> (\<exists>inst. res = Inr inst))"
proof -
  obtain x db0 where g: "get_instrument db n = (x, db0)" by (cases "get_instrument db n")
  from get_instrument_same[OF g] have s: "reduction_runs db0 = reduction_runs db"
    "experiments db0 = experiments db" by auto
  show ?thesis
  proof (cases "inst_is_active x")
    case True
    with g assms s show ?thesis by (auto simp: get_and_activate_db_inst_def)
  next
    case False
    with g assms s show ?thesis
      by (auto simp: get_and_activate_db_inst_def save_def Let_def
               split: if_splits prod.splits sum.splits)
  qed
qed

lemma get_experiment_cong:
  "experiments db' = experiments db \<Longrightarrow> fst (get_experiment db' rb) = fst (get_experiment db rb)"
  by (simp add: get_experiment_def Let_def split: option.splits prod.splits)

lemma find_append_last:
  "find p xs = None \<Longrightarrow> p y \<Longrightarrow> find p (xs @ [y]) = Some y"
  by (induction xs) (auto split: if_splits)

lemma get_experiment_stable:
  assumes "get_experiment db rb = (x, db2)"
  shows "reduction_runs db2 = reduction_runs db \<and> fst (get_experiment db2 rb) = x"
proof (cases "find (\<lambda>y. exp_reference_number y = rb) (experiments db)")
  case (Some y)
  with assms show ?thesis by (auto simp: get_experiment_def)
next
  case None
  let ?x0 = "\<lparr>exp_pk = None, exp_reference_number = rb\<rparr>"
  obtain i rows where sr: "save_row exp_pk (\<lambda>i r. r\<lparr>exp_pk := Some i\<rparr>) ?x0 (experiments db) = (i, rows)"
    by (cases "save_row exp_pk (\<lambda>i r. r\<lparr>exp_pk := Some i\<rparr>) ?x0 (experiments db)")
  then have rows: "rows = experiments db @ [?x0\<lparr>exp_pk := Some i\<rparr>]"
    by (auto simp: save_row_def Let_def)
  from None sr assms have x: "x = ?x0\<lparr>exp_pk := Some i\<rparr>" and db2: "db2 = db\<lparr>experiments := rows\<rparr>"
    by (auto simp: get_experiment_def Let_def)
  have "find (\<lambda>y. exp_reference_number y = rb) rows = Some x"
    unfolding rows x using None by (rule find_append_last) simp
  then have "fst (get_experiment db2 rb) = x" using db2 by (simp add: get_experiment_def)
  with db2 show ?thesis by simp
qed

lemma foldr_versions:
  "0 \<le> a \<Longrightarrow> foldr (\<lambda>v m. max (v + 1) m) (map int [0..<k]) a = max (int k) a"
  by (induction k arbitrary: a) (auto simp: max_def)

lemma find_highest_run_version_count:
  "scope_versions db rn (exp_pk x) = map int [0..<k] \<Longrightarrow> find_highest_run_version db rn x = int k"
  by (simp add: find_highest_run_version_def foldr_versions)

lemma save_run_new:
  assumes "run_pk r = None" and "save_run integrity db r = (res, db3)"
  shows "(integrity db (RunRow r) \<or> (\<exists>err. res = Inl err \<and> db3 = db))
         \<and> (\<forall>r'. res = Inr r' \<longrightarrow>
               owns db3 r' \<and> reduction_runs db3 = reduction_runs db @ [r']
               \<and> experiments db3 = experiments db
               \<and> run_run_number r' = run_run_number r \<and> run_experiment r' = run_experiment r
               \<and> run_run_version r' = run_run_version r)
         \<and> (integrity db (RunRow r) \<longrightarrow> (\<exists>r'. res = Inr r'))"
proof (cases "integrity db (RunRow r)")
  case False
  with assms(2) show ?thesis by (auto simp: save_run_def safe_save_def save_def)
next
  case True
  let ?i = "fresh_pk run_pk (reduction_runs db)"
  let ?r' = "r\<lparr>run_pk := Some ?i\<rparr>"
  have s: "save_run integrity db r = (Inr ?r', db\<lparr>reduction_runs := reduction_runs db @ [?r']\<rparr>)"
    using True assms(1) by (simp add: save_run_def safe_save_def save_def save_row_def Let_def)
  have fresh: "\<And>y. y \<in> set (reduction_runs db) \<Longrightarrow> run_pk y \<noteq> Some ?i"
    using fresh_pk_bound[of _ "reduction_runs db" run_pk ?i] by auto
  have "owns (db\<lparr>reduction_runs := reduction_runs db @ [?r']\<rparr>) ?r'"
    unfolding owns_def using fresh by (auto simp: fst_run_ident run_ident_def)
  with s assms(2) True show ?thesis by auto
qed

lemma scope_versions_append:
  "reduction_runs db' = reduction_runs db @ [r] \<Longrightarrow>
     scope_versions db' rn e
       = scope_versions db rn e
         @ (if run_run_number r = rn \<and> run_experiment r = e then [run_run_version r] else [])"
  by (simp add: scope_versions_def)

lemma scope_versions_runs:
  "reduction_runs db' = reduction_runs db \<Longrightarrow> scope_versions db' rn e = scope_versions db rn e"
  by (simp add: scope_versions_def)

lemma data_ready_record_step:
  assumes rn: "msg_run_number m = rn"
    and rb: "(if vrb (msg_rb_number m) then msg_rb_number m else RbInt 0) = rb"
    and e: "exp_pk (fst (get_experiment db rb)) = e"
    and v: "scope_versions db rn e = map int [0..<k]"
    and rec: "data_ready_record integrity vrb script t db m = (res, db')"
  shows "exp_pk (fst (get_experiment db' rb)) = e
         \<and> (scope_versions db' rn e = map int [0..<k]
              \<or> scope_versions db' rn e = map int [0..<Suc k])
         \<and> (\<forall>r m' inst. res = Inr (r, m', inst) \<longrightarrow>
               owns db' r \<and> scope_versions db' rn e = map int [0..<Suc k])
         \<and> ((\<forall>d x. integrity d x) \<and> (\<forall>n. script n \<noteq> None) \<longrightarrow> (\<exists>y. res = Inr y))"
proof -
  define m1 where "m1 = (if \<not> vrb (msg_rb_number m)
             then m\<lparr>msg_message := Some (''Found non-integer RB number: '' @ str_rb (msg_rb_number m)),
                    msg_rb_number := RbInt 0\<rparr>
             else m)"
  have m1rb: "msg_rb_number m1 = rb" using rb by (auto simp: m1_def split: if_splits)
  have m1rn: "msg_run_number m1 = rn" using rn by (simp add: m1_def)
  obtain ia db1 where act: "get_and_activate_db_inst integrity db (msg_instrument m1) = (ia, db1)"
    by (cases "get_and_activate_db_inst integrity db (msg_instrument m1)")
  from get_and_activate_db_inst_same[OF act]
  have s1: "reduction_runs db1 = reduction_runs db" "experiments db1 = experiments db"
    and ok1: "(\<forall>d x. integrity d x) \<longrightarrow> (\<exists>inst. ia = Inr inst)" by auto
  have e1: "exp_pk (fst (get_experiment db1 rb)) = e"
    using get_experiment_cong[OF s1(2), of rb] e by simp
  have v1: "scope_versions db1 rn e = map int [0..<k]"
    using scope_versions_runs[OF s1(1)] v by simp
  show ?thesis
  proof (cases ia)
    case (Inl err)
    with act rec have "res = Inl err" "db' = db1"
      by (auto simp: data_ready_record_def m1_def[symmetric] Let_def)
    with e1 v1 ok1 Inl show ?thesis by auto
  next
    case (Inr inst)
    obtain x db2 where ge: "get_experiment db1 rb = (x, db2)" by (cases "get_experiment db1 rb")
    from get_experiment_stable[OF ge]
    have s2: "reduction_runs db2 = reduction_runs db1" and x2: "fst (get_experiment db2 rb) = x"
      by auto
    have xe: "exp_pk x = e" using e1 ge by simp
    have e2: "exp_pk (fst (get_experiment db2 rb)) = e" using x2 xe by simp
    have v2: "scope_versions db2 rn e = map int [0..<k]"
      using scope_versions_runs[OF s2] v1 by simp
    have ver: "find_highest_run_version db2 rn x = int k"
      using v2 xe by (simp add: find_highest_run_version_count)
    define m2 where "m2 = m1\<lparr>msg_run_version := Some (int k)\<rparr>"
    define st where "st = (if inst_is_paused inst then get_skipped else get_queued)"
    show ?thesis
    proof (cases "script (inst_name inst)")
      case None
      have "call_reduction_error integrity t db2 [MessageObj m2] = (Inl TypeError, db2)"
        by (simp add: call_reduction_error_def)
      with None act Inr ge ver m1rb m1rn rec have "res = Inl TypeError" "db' = db2"
        by (auto simp: data_ready_record_def m1_def[symmetric] m2_def[symmetric] Let_def)
      with e2 v2 None show ?thesis by auto
    next
      case (Some script_text)
      define r0 where "r0 = create_reduction_run_record x inst m2 (int k) script_text st"
      have r0: "run_pk r0 = None" "run_run_number r0 = rn" "run_experiment r0 = e"
        "run_run_version r0 = int k"
        using xe m1rn by (simp_all add: r0_def create_reduction_run_record_def m2_def)
      obtain sr db3 where sv: "save_run integrity db2 r0 = (sr, db3)"
        by (cases "save_run integrity db2 r0")
      from save_run_new[OF r0(1) sv]
      have n1: "integrity db2 (RunRow r0) \<or> (\<exists>err. sr = Inl err \<and> db3 = db2)"
        and n2: "\<forall>r'. sr = Inr r' \<longrightarrow>
               owns db3 r' \<and> reduction_runs db3 = reduction_runs db2 @ [r']
               \<and> experiments db3 = experiments db2
               \<and> run_run_number r' = run_run_number r0 \<and> run_experiment r' = run_experiment r0
               \<and> run_run_version r' = run_run_version r0"
        and n3: "integrity db2 (RunRow r0) \<longrightarrow> (\<exists>r'. sr = Inr r')" by auto
      have md: "msg_data m2 = msg_data m1" by (simp add: m2_def)
      have unfold: "data_ready_record integrity vrb script t db m
          = (case sr of
               Inl e \<Rightarrow> (Inl e, db3)
             | Inr reduction_run \<Rightarrow>
                 (case safe_save integrity db3
                         (DataLocationRow \<lparr>dl_pk = None, dl_file_path = msg_data m2,
                                           dl_reduction_run_id = run_pk reduction_run\<rparr>) of
                    (Inl e, db4) \<Rightarrow> (Inl e, db4)
                  | (Inr _, db4) \<Rightarrow> (Inr (reduction_run, m2, inst), db4)))"
        using act Inr ge ver m1rb m1rn Some sv
        by (simp add: data_ready_record_def m1_def[symmetric] m2_def[symmetric] st_def[symmetric]
              r0_def[symmetric] Let_def md
              cong: sum.case_cong prod.case_cong option.case_cong)
      show ?thesis
      proof (cases sr)
        case (Inl err)
        with n1 n3 have "db3 = db2" "\<not> integrity db2 (RunRow r0)" by auto
        with Inl unfold rec e2 v2 show ?thesis by auto
      next
        case (Inr r1)
        with n2 r0 have o3: "owns db3 r1" and rows3: "reduction_runs db3 = reduction_runs db2 @ [r1]"
          and ex3: "experiments db3 = experiments db2"
          and k1: "run_run_number r1 = rn" "run_experiment r1 = e" "run_run_version r1 = int k"
          by auto
        have v3: "scope_versions db3 rn e = map int [0..<Suc k]"
          using scope_versions_append[OF rows3, of rn e] k1 v2 by simp
        have e3: "exp_pk (fst (get_experiment db3 rb)) = e"
          using get_experiment_cong[OF ex3, of rb] e2 by simp
        let ?dl = "DataLocationRow \<lparr>dl_pk = None, dl_file_path = msg_data m2,
                                    dl_reduction_run_id = run_pk r1\<rparr>"
        obtain sd db4 where sdl: "safe_save integrity db3 ?dl = (sd, db4)"
          by (cases "safe_save integrity db3 ?dl")
        from safe_save_data_location_same[OF sdl] have same: "same_runs db3 db4" .
        have v4: "scope_versions db4 rn e = map int [0..<Suc k]"
          using same_runs_scope[OF same] v3 by simp
        have e4: "exp_pk (fst (get_experiment db4 rb)) = e"
          using get_experiment_cong[of db4 db3 rb] same e3 by (simp add: same_runs_def)
        have o4: "owns db4 r1" using o3 same by (rule owns_same) simp
        have acc: "(\<forall>d x. integrity d x) \<longrightarrow> (\<exists>i. sd = Inr i)"
          using sdl by (auto simp: safe_save_def save_def Let_def split: prod.splits)
        have "db' = db4" and "res = (case sd of Inl e \<Rightarrow> Inl e | Inr _ \<Rightarrow> Inr (r1, m2, inst))"
          using unfold rec Inr sdl by (auto split: sum.splits)
        with v4 e4 o4 acc show ?thesis by (auto split: sum.splits)
      qed
    qed
  qed
qed

lemma data_ready_step:
  assumes rn: "msg_run_number m = rn"
    and rb: "(if vrb (msg_rb_number m) then msg_rb_number m else RbInt 0) = rb"
    and e: "exp_pk (fst (get_experiment db rb)) = e"
    and v: "scope_versions db rn e = map int [0..<k]"
    and d: "db' = snd (data_ready integrity vrb script prepare validate run_process t1 t2 db m)"
  shows "exp_pk (fst (get_experiment db' rb)) = e
         \<and> (scope_versions db' rn e = map int [0..<k]
              \<or> scope_versions db' rn e = map int [0..<Suc k])
         \<and> ((\<forall>d x. integrity d x) \<and> (\<forall>n. script n \<noteq> None) \<longrightarrow>
               scope_versions db' rn e = map int [0..<Suc k])"
proof -
  obtain res db1 where rec: "data_ready_record integrity vrb script t1 db m = (res, db1)"
    by (cases "data_ready_record integrity vrb script t1 db m")
  from data_ready_record_step[OF rn rb e v rec]
  have e1: "exp_pk (fst (get_experiment db1 rb)) = e"
    and v1: "scope_versions db1 rn e = map int [0..<k]
              \<or> scope_versions db1 rn e = map int [0..<Suc k]"
    and o1: "\<forall>r m' inst. res = Inr (r, m', inst) \<longrightarrow>
               owns db1 r \<and> scope_versions db1 rn e = map int [0..<Suc k]"
    and ok: "(\<forall>d x. integrity d x) \<and> (\<forall>n. script n \<noteq> None) \<longrightarrow> (\<exists>y. res = Inr y)"
    by auto
  show ?thesis
  proof (cases res)
    case (Inl err)
    with rec d have "db' = db1" by (simp add: data_ready_def)
    moreover have "\<not> ((\<forall>d x. integrity d x) \<and> (\<forall>n. script n \<noteq> None))"
      using ok Inl by blast
    ultimately show ?thesis using e1 v1 by blast
  next
    case (Inr y)
    obtain r m1 inst where y: "y = (r, m1, inst)" by (cases y)
    with Inr o1 have o: "owns db1 r" and vs: "scope_versions db1 rn e = map int [0..<Suc k]"
      by auto
    have same: "same_runs db1 db'"
    proof (cases "prepare r m1")
      case (Inl err)
      with rec Inr y d show ?thesis by (simp add: data_ready_def same_runs_refl)
    next
      case (Inr m2)
      obtain res2 db2 where s: "send_message_onwards integrity validate run_process t1 t2 db1 r m2 inst
                                  = (res2, db2)"
        by (cases "send_message_onwards integrity validate run_process t1 t2 db1 r m2 inst")
      with rec \<open>res = Inr y\<close> y Inr d have "db' = db2" by (simp add: data_ready_def)
      with send_message_onwards_owned[OF o s] show ?thesis by simp
    qed
    have "scope_versions db' rn e = map int [0..<Suc k]"
      using same_runs_scope[OF same] vs by simp
    moreover have "exp_pk (fst (get_experiment db' rb)) = e"
      using get_experiment_cong[of db' db1 rb] same e1 by (simp add: same_runs_def)
    ultimately show ?thesis by simp
  qed
qed

lemma data_ready_events_versions:
  assumes "\<forall>ev \<in> set events. msg_run_number (fst ev) = rn
             \<and> (if vrb (msg_rb_number (fst ev)) then msg_rb_number (fst ev) else RbInt 0) = rb"
    and "exp_pk (fst (get_experiment db rb)) = e"
    and "scope_versions db rn e = map int [0..<k0]"
  shows "\<exists>k. k0 \<le> k \<and> k \<le> k0 + length events
           \<and> scope_versions
                (data_ready_events integrity vrb script prepare validate run_process db events) rn e
               = map int [0..<k]
           \<and> ((\<forall>d x. integrity d x) \<and> (\<forall>n. script n \<noteq> None) \<longrightarrow> k = k0 + length events)"
  using assms
proof (induction events arbitrary: db k0)
  case Nil
  then show ?case by auto
next
  case (Cons ev events)
  obtain m t1 t2 where ev: "ev = (m, t1, t2)" by (cases ev)
  let ?db' = "snd (data_ready integrity vrb script prepare validate run_process t1 t2 db m)"
  from Cons.prems(1) ev have rn: "msg_run_number m = rn"
    and rb: "(if vrb (msg_rb_number m) then msg_rb_number m else RbInt 0) = rb" by auto
  from data_ready_step[where m = m and rn = rn and vrb = vrb and rb = rb and db = db and e = e
         and k = k0 and db' = ?db' and integrity = integrity and script = script
         and prepare = prepare and validate = validate and run_process = run_process
         and ?t1.0 = t1 and ?t2.0 = t2, OF rn rb Cons.prems(2) Cons.prems(3) refl]
  have e': "exp_pk (fst (get_experiment ?db' rb)) = e"
    and v': "scope_versions ?db' rn e = map int [0..<k0] \<or> scope_versions ?db' rn e = map int [0..<Suc k0]"
    and f': "(\<forall>d x. integrity d x) \<and> (\<forall>n. script n \<noteq> None) \<longrightarrow>
               scope_versions ?db' rn e = map int [0..<Suc k0]"
    by auto
  have rest: "\<forall>ev \<in> set events. msg_run_number (fst ev) = rn
             \<and> (if vrb (msg_rb_number (fst ev)) then msg_rb_number (fst ev) else RbInt 0) = rb"
    using Cons.prems(1) by simp
  have run: "data_ready_events integrity vrb script prepare validate run_process db (ev # events)
             = data_ready_events integrity vrb script prepare validate run_process ?db' events"
    using ev by simp
  let ?final = "data_ready_events integrity vrb script prepare validate run_process ?db' events"
  have step: "\<And>j. j = k0 \<or> j = Suc k0 \<Longrightarrow> scope_versions ?db' rn e = map int [0..<j] \<Longrightarrow>
                ((\<forall>d x. integrity d x) \<and> (\<forall>n. script n \<noteq> None) \<longrightarrow> j = Suc k0) \<Longrightarrow> ?case"
  proof -
    fix j assume j: "j = k0 \<or> j = Suc k0" and vj: "scope_versions ?db' rn e = map int [0..<j]"
      and nf: "(\<forall>d x. integrity d x) \<and> (\<forall>n. script n \<noteq> None) \<longrightarrow> j = Suc k0"
    from Cons.IH[OF rest e' vj] obtain k where
      k: "j \<le> k" "k \<le> j + length events"
      "scope_versions ?final rn e = map int [0..<k]"
      "(\<forall>d x. integrity d x) \<and> (\<forall>n. script n \<noteq> None) \<longrightarrow> k = j + length events"
      by blast
    have "k0 \<le> k" using j k(1) by auto
    moreover have "k \<le> k0 + length (ev # events)" using j k(2) by auto
    moreover have "(\<forall>d x. integrity d x) \<and> (\<forall>n. script n \<noteq> None) \<longrightarrow> k = k0 + length (ev # events)"
      using nf k(4) by auto
    ultimately show ?case unfolding run using k(3) by blast
  qed
  show ?case
  proof (cases "(\<forall>d x. integrity d x) \<and> (\<forall>n. script n \<noteq> None)")
    case True
    with f' have "scope_versions ?db' rn e = map int [0..<Suc k0]" by blast
    then show ?thesis by (rule step[of "Suc k0", rotated]) simp_all
  next
    case False
    from v' show ?thesis
    proof
      assume "scope_versions ?db' rn e = map int [0..<k0]"
      then show ?thesis using False by (intro step[of k0]) blast+
    next
      assume "scope_versions ?db' rn e = map int [0..<Suc k0]"
      then show ?thesis using False by (intro step[of "Suc k0"]) blast+
    qed
  qed
qed

text \<open>
  C4. A sequence of data-ready events of one run number that all resolve to one
  experiment reference, on a store that holds no run of that run number under that
  experiment: the versions of the runs created, in the order of their creation, are
  0, 1, 2 and so on, one for each event that gets as far as storing its run; when the
  store accepts every write and every instrument has a script, each event creates its
  run. The later transitions of a run leave its version as it is.
\<close>

theorem run_versions_count_up:
  "(\<forall>ev \<in> set events. msg_run_number (fst ev) = rn
       \<and> (if vrb (msg_rb_number (fst ev)) then msg_rb_number (fst ev) else RbInt 0) = rb)
   \<and> scope_versions db rn (exp_pk (fst (get_experiment db rb))) = []
   \<longrightarrow> (\<exists>k \<le> length events.
          scope_versions
            (data_ready_events integrity vrb script prepare validate run_process db events) rn
            (exp_pk (fst (get_experiment db rb)))
          = map int [0..<k]
          \<and> ((\<forall>d x. integrity d x) \<and> (\<forall>n. script n \<noteq> None) \<longrightarrow> k = length events))"
proof
  assume a: "(\<forall>ev \<in> set events. msg_run_number (fst ev) = rn
       \<and> (if vrb (msg_rb_number (fst ev)) then msg_rb_number (fst ev) else RbInt 0) = rb)
   \<and> scope_versions db rn (exp_pk (fst (get_experiment db rb))) = []"
  then have v0: "scope_versions db rn (exp_pk (fst (get_experiment db rb))) = map int [0..<0]"
    by simp
  from data_ready_events_versions[OF a[THEN conjunct1] refl v0,
         of integrity script prepare validate run_process]
  show "\<exists>k \<le> length events.
          scope_versions
            (data_ready_events integrity vrb script prepare validate run_process db events) rn
            (exp_pk (fst (get_experiment db rb)))
          = map int [0..<k]
          \<and> ((\<forall>d x. integrity d x) \<and> (\<forall>n. script n \<noteq> None) \<longrightarrow> k = length events)"
    by auto
qed

theorem run_versions_count_up_witness:
  "msg_run_number demo_message = 100
   \<and> seven_digits (msg_rb_number demo_message)
   \<and> msg_rb_number demo_message = RbInt 1234567
   \<and> scope_versions empty_db 100 (exp_pk (fst (get_experiment empty_db (RbInt 1234567)))) = []
   \<and> scope_versions
        (data_ready_events accept_all seven_digits demo_script (\<lambda>r m. Inr m) (\<lambda>m. True) launch_ok
           empty_db [(demo_message, 5, 6), (demo_message, 7, 8)])
        100 (exp_pk (fst (get_experiment empty_db (RbInt 1234567))))
      = [0, 1]"
proof -
  have h1: "\<forall>ev \<in> set [(demo_message, 5::nat, 6::nat), (demo_message, 7, 8)].
       msg_run_number (fst ev) = 100
       \<and> (if seven_digits (msg_rb_number (fst ev)) then msg_rb_number (fst ev) else RbInt 0)
           = RbInt 1234567"
    by (simp add: demo_message_def seven_digits_def)
  have h2: "scope_versions empty_db 100 (exp_pk (fst (get_experiment empty_db (RbInt 1234567)))) = []"
    by (simp add: scope_versions_def empty_db_def)
  have h3: "(\<forall>d x. accept_all d x) \<and> (\<forall>n. demo_script n \<noteq> None)"
    by (simp add: accept_all_def demo_script_def)
  have l: "map int [0..<2] = [0, 1]" by (simp add: upt_rec)
  from run_versions_count_up[where events = "[(demo_message, 5, 6), (demo_message, 7, 8)]"
         and rn = 100 and vrb = seven_digits and rb = "RbInt 1234567" and db = empty_db
         and integrity = accept_all and script = demo_script and prepare = "\<lambda>r m. Inr m"
         and validate = "\<lambda>m. True" and run_process = launch_ok] h1 h2
  obtain k where k: "scope_versions
        (data_ready_events accept_all seven_digits demo_script (\<lambda>r m. Inr m) (\<lambda>m. True) launch_ok
           empty_db [(demo_message, 5, 6), (demo_message, 7, 8)])
        100 (exp_pk (fst (get_experiment empty_db (RbInt 1234567))))
      = map int [0..<k]"
    and kl: "(\<forall>d x. accept_all d x) \<and> (\<forall>n. demo_script n \<noteq> None)
               \<longrightarrow> k = length [(demo_message, 5::nat, 6::nat), (demo_message, 7, 8)]"
    by blast
  from kl h3 have "k = 2" by simp
  with k have "scope_versions
        (data_ready_events accept_all seven_digits demo_script (\<lambda>r m. Inr m) (\<lambda>m. True) launch_ok
           empty_db [(demo_message, 5, 6), (demo_message, 7, 8)])
        100 (exp_pk (fst (get_experiment empty_db (RbInt 1234567))))
      = map int [0..<2]"
    by simp
  then have "scope_versions
        (data_ready_events accept_all seven_digits demo_script (\<lambda>r m. Inr m) (\<lambda>m. True) launch_ok
           empty_db [(demo_message, 5, 6), (demo_message, 7, 8)])
        100 (exp_pk (fst (get_experiment empty_db (RbInt 1234567))))
      = [0, 1]"
    by (simp only: l)
  moreover have "msg_run_number demo_message = 100 \<and> seven_digits (msg_rb_number demo_message)
                 \<and> msg_rb_number demo_message = RbInt 1234567"
    by (simp add: demo_message_def seven_digits_def)
  ultimately show ?thesis using h2 by blast
qed


end
